theory Spec2Isabelle
  imports Main "HOL-Library.Sublist" "HOL-Library.AList" "HOL-Library.Char_ord" "HOL-Library.List_Lexorder"
begin

section \<open>Zug: an autonomous coding agent\<close>

text \<open>
  The repository holds three variants of one program, each a \<open>package main\<close> of its own:
  the tool-calling agent (the file with \<open>absPath\<close>, \<open>chat\<close>, \<open>execTool\<close>; 579 lines),
  \<open>zug.go\<close>, and a third file with \<open>NewAutonomousCodingAgent\<close>.  The definitions below keep
  the names of the tool-calling agent; those of the other two carry the suffixes \<open>_zug\<close>
  and \<open>_v2\<close>.

  Strings are Go strings: sequences of bytes (\<^typ>\<open>string\<close> is \<^typ>\<open>char list\<close>, one
  \<^typ>\<open>char\<close> per byte).  The operating system is a Unix: \<open>os.PathSeparator\<close> is \<open>/\<close>.
\<close>

subsection \<open>Go library: package strings\<close>

definition HasPrefix :: "string \<Rightarrow> string \<Rightarrow> bool" where
  \<comment> \<open>\<open>strings.HasPrefix(s, prefix)\<close>\<close>
  "HasPrefix s p = prefix p s"

definition Contains :: "string \<Rightarrow> string \<Rightarrow> bool" where
  \<comment> \<open>\<open>strings.Contains(s, substr)\<close>\<close>
  "Contains s sub = sublist sub s"

fun Join_strings :: "string list \<Rightarrow> string \<Rightarrow> string" where
  \<comment> \<open>\<open>strings.Join(elems, sep)\<close>\<close>
  "Join_strings [] sep = []"
| "Join_strings [e] sep = e"
| "Join_strings (e # es) sep = e @ sep @ Join_strings es sep"

fun Split_slash :: "string \<Rightarrow> string list" where
  \<comment> \<open>\<open>strings.Split(s, "/")\<close>: the elements between separators, empty ones included\<close>
  "Split_slash [] = [[]]"
| "Split_slash (c # cs) =
     (if c = CHR ''/'' then [] # Split_slash cs
      else (case Split_slash cs of
              [] \<Rightarrow> [[c]]
            | e # es \<Rightarrow> (c # e) # es))"

subsection \<open>Go library: package unicode/utf8\<close>

definition RuneError :: nat where
  "RuneError = 0xFFFD"

definition DecodeRuneInString :: "string \<Rightarrow> nat \<times> nat" where
  \<comment> \<open>\<open>utf8.DecodeRuneInString(s)\<close>: the first rune of the string and its width in bytes;
      \<open>(RuneError, 0)\<close> for the empty string and \<open>(RuneError, 1)\<close> for an encoding that is
      not valid\<close>
  "DecodeRuneInString s =
     (case s of
        [] \<Rightarrow> (RuneError, 0)
      | c0 # _ \<Rightarrow>
          let s0 = (of_char c0 :: nat) in
          if s0 < 0x80 then (s0, 1)
          else if s0 < 0xC2 \<or> 0xF4 < s0 then (RuneError, 1)
          else
            let sz = (if s0 < 0xE0 then 2 else if s0 < 0xF0 then 3 else 4 :: nat);
                lo = (if s0 = 0xE0 then 0xA0 else if s0 = 0xF0 then 0x90 else 0x80 :: nat);
                hi = (if s0 = 0xED then 0x9F else if s0 = 0xF4 then 0x8F else 0xBF :: nat)
            in if length s < sz then (RuneError, 1)
               else
                 let s1 = (of_char (s ! 1) :: nat) in
                 if s1 < lo \<or> hi < s1 then (RuneError, 1)
                 else if sz \<le> 2 then ((s0 mod 32) * 64 + s1 mod 64, 2)
                 else
                   let s2 = (of_char (s ! 2) :: nat) in
                   if s2 < 0x80 \<or> 0xBF < s2 then (RuneError, 1)
                   else if sz \<le> 3 then ((s0 mod 16) * 4096 + (s1 mod 64) * 64 + s2 mod 64, 3)
                   else
                     let s3 = (of_char (s ! 3) :: nat) in
                     if s3 < 0x80 \<or> 0xBF < s3 then (RuneError, 1)
                     else ((s0 mod 8) * 262144 + (s1 mod 64) * 4096
                             + (s2 mod 64) * 64 + s3 mod 64, 4))"

subsection \<open>Go library: strings.ReplaceAll\<close>

function afterEachRune :: "string \<Rightarrow> string \<Rightarrow> string" where
  \<comment> \<open>the text with \<open>new\<close> written after each of its runes\<close>
  "afterEachRune new s =
     (if s = [] then []
      else let wid = snd (DecodeRuneInString s)
           in take wid s @ new @ afterEachRune new (drop wid s))"
  by pat_completeness auto
termination
proof (relation "measure (\<lambda>(new, s). length s)", goal_cases)
  case 1
  show ?case by simp
next
  case (2 new s wid)
  have "s \<noteq> [] \<Longrightarrow> 0 < snd (DecodeRuneInString s)"
    by (cases s) (simp_all add: DecodeRuneInString_def Let_def)
  with 2 show ?case by simp
qed

declare afterEachRune.simps [simp del]

function replaceEach :: "string \<Rightarrow> string \<Rightarrow> string \<Rightarrow> string" where
  \<comment> \<open>the occurrences of a non-empty \<open>old\<close>, found from left to right without overlap,
      replaced by \<open>new\<close>\<close>
  "replaceEach s old new =
     (if old = [] \<or> s = [] then s
      else if prefix old s then new @ replaceEach (drop (length old) s) old new
      else hd s # replaceEach (tl s) old new)"
  by pat_completeness auto
termination
  by (relation "measure (\<lambda>(s, old, new). length s)") auto

declare replaceEach.simps [simp del]

definition ReplaceAll :: "string \<Rightarrow> string \<Rightarrow> string \<Rightarrow> string" where
  \<comment> \<open>\<open>strings.ReplaceAll(s, old, new)\<close>; an empty \<open>old\<close> matches at the beginning of the
      string and after each UTF-8 sequence\<close>
  "ReplaceAll s old new =
     (if old = [] then new @ afterEachRune new s else replaceEach s old new)"

subsection \<open>Go library: strings.TrimSpace\<close>

definition whiteSpace :: "string list" where
  \<comment> \<open>the UTF-8 encodings of the runes for which \<open>unicode.IsSpace\<close> holds: tab, line feed,
      vertical tab, form feed, carriage return, space, U+0085, U+00A0, U+1680,
      U+2000 to U+200A, U+2028, U+2029, U+202F, U+205F and U+3000\<close>
  "whiteSpace =
     [[CHR 0x09], [CHR 0x0A], [CHR 0x0B], [CHR 0x0C], [CHR 0x0D], [CHR 0x20],
      [CHR 0xC2, CHR 0x85], [CHR 0xC2, CHR 0xA0], [CHR 0xE1, CHR 0x9A, CHR 0x80],
      [CHR 0xE2, CHR 0x80, CHR 0x80], [CHR 0xE2, CHR 0x80, CHR 0x81],
      [CHR 0xE2, CHR 0x80, CHR 0x82], [CHR 0xE2, CHR 0x80, CHR 0x83],
      [CHR 0xE2, CHR 0x80, CHR 0x84], [CHR 0xE2, CHR 0x80, CHR 0x85],
      [CHR 0xE2, CHR 0x80, CHR 0x86], [CHR 0xE2, CHR 0x80, CHR 0x87],
      [CHR 0xE2, CHR 0x80, CHR 0x88], [CHR 0xE2, CHR 0x80, CHR 0x89],
      [CHR 0xE2, CHR 0x80, CHR 0x8A], [CHR 0xE2, CHR 0x80, CHR 0xA8],
      [CHR 0xE2, CHR 0x80, CHR 0xA9], [CHR 0xE2, CHR 0x80, CHR 0xAF],
      [CHR 0xE2, CHR 0x81, CHR 0x9F], [CHR 0xE3, CHR 0x80, CHR 0x80]]"

function trimLeft :: "string list \<Rightarrow> string \<Rightarrow> string" where
  \<comment> \<open>drops the leading occurrences of the given byte sequences\<close>
  "trimLeft seqs s =
     (case List.find (\<lambda>w. w \<noteq> [] \<and> prefix w s) seqs of
        None \<Rightarrow> s
      | Some w \<Rightarrow> trimLeft seqs (drop (length w) s))"
  by pat_completeness auto
termination
proof (relation "measure (\<lambda>(seqs, s). length s)", goal_cases)
  case 1
  show ?case by simp
next
  case (2 seqs s w)
  then have "w \<noteq> [] \<and> prefix w s"
    by (auto simp: find_Some_iff)
  then have "s \<noteq> []" by auto
  with \<open>w \<noteq> [] \<and> prefix w s\<close> show ?case by simp
qed

declare trimLeft.simps [simp del]

definition TrimSpace :: "string \<Rightarrow> string" where
  \<comment> \<open>\<open>strings.TrimSpace(s)\<close>: the string without leading and trailing white space\<close>
  "TrimSpace s = rev (trimLeft (map rev whiteSpace) (rev (trimLeft whiteSpace s)))"

subsection \<open>Go library: package path/filepath (Unix)\<close>

definition IsAbs :: "string \<Rightarrow> bool" where
  \<comment> \<open>\<open>filepath.IsAbs\<close>: on Unix, the path begins with a slash\<close>
  "IsAbs path = HasPrefix path ''/''"

text \<open>
  \<open>filepath.Clean\<close> reads the path element by element and keeps the elements of the result
  on a stack (\<open>out\<close>, the last element first).  An empty element and \<open>.\<close> are skipped;
  \<open>..\<close> removes the element before it when there is one that is not itself \<open>..\<close>
  (Go: \<open>out.w > dotdot\<close>), is kept in a path that is not rooted, and is dropped at the root
  of a rooted one; any other element is kept.
\<close>

fun cleanElems :: "bool \<Rightarrow> string list \<Rightarrow> string list \<Rightarrow> string list" where
  "cleanElems rooted out [] = rev out"
| "cleanElems rooted out (e # es) =
     (if e = [] \<or> e = ''.'' then cleanElems rooted out es
      else if e = ''..'' then
        (if out \<noteq> [] \<and> hd out \<noteq> ''..'' then cleanElems rooted (tl out) es
         else if \<not> rooted then cleanElems rooted (''..'' # out) es
         else cleanElems rooted out es)
      else cleanElems rooted (e # out) es)"

definition Clean :: "string \<Rightarrow> string" where
  \<comment> \<open>\<open>filepath.Clean(path)\<close>\<close>
  "Clean path =
     (if path = [] then ''.''
      else let rooted = (hd path = CHR ''/'');
               body = Join_strings (cleanElems rooted [] (Split_slash path)) ''/''
           in if rooted then CHR ''/'' # body
              else if body = [] then ''.'' else body)"

definition Join :: "string \<Rightarrow> string \<Rightarrow> string" where
  \<comment> \<open>\<open>filepath.Join(a, b)\<close>: the non-empty elements from the first non-empty one on,
      joined by slashes and cleaned; the empty string when both are empty\<close>
  "Join a b =
     (if a \<noteq> [] then Clean (a @ ''/'' @ b)
      else if b \<noteq> [] then Clean b
      else [])"

definition Dir :: "string \<Rightarrow> string" where
  \<comment> \<open>\<open>filepath.Dir(path)\<close>: all but the last element of the path, cleaned\<close>
  "Dir path = Clean (rev (dropWhile (\<lambda>c. c \<noteq> CHR ''/'') (rev path)))"

subsection \<open>The file system\<close>

text \<open>
  The file system is a finite table from cleaned paths to nodes.  The root \<open>/\<close> and the
  current directory \<open>.\<close> are directories that always exist.  Every node is readable and
  writable by the agent: the failures modelled are those that the shape of the tree causes.
  A path that is not in the table is missing, or lies below a regular file: the system
  tells the two apart (\<open>ENOENT\<close>, \<open>ENOTDIR\<close>), and so does \<open>notFound\<close>.
\<close>

datatype node = File string | Directory

type_synonym filesys = "(string \<times> node) list"

datatype os_error = ENOENT | ENOTDIR | EISDIR

definition Stat :: "filesys \<Rightarrow> string \<Rightarrow> node option" where
  \<comment> \<open>\<open>os.Stat(name)\<close>: the node at the path, if any\<close>
  "Stat fs name = (if name = ''/'' \<or> name = ''.'' then Some Directory else map_of fs name)"

fun ancestors :: "string \<Rightarrow> string \<Rightarrow> string list" where
  \<comment> \<open>the proper ancestors of a cleaned path below \<open>/\<close> or \<open>.\<close>, the outermost first;
      the first argument is the part of the path already read, reversed\<close>
  "ancestors pre [] = []"
| "ancestors pre (c # cs) =
     (if c = CHR ''/'' \<and> pre \<noteq> [] then rev pre # ancestors (c # pre) cs
      else ancestors (c # pre) cs)"

fun mkdirs :: "filesys \<Rightarrow> string list \<Rightarrow> os_error + filesys" where
  "mkdirs fs [] = Inr fs"
| "mkdirs fs (d # ds) =
     (case Stat fs d of
        Some Directory \<Rightarrow> mkdirs fs ds
      | Some (File _) \<Rightarrow> Inl ENOTDIR
      | None \<Rightarrow> mkdirs (AList.update d Directory fs) ds)"

definition MkdirAll :: "filesys \<Rightarrow> string \<Rightarrow> os_error + filesys" where
  \<comment> \<open>\<open>os.MkdirAll(path, perm)\<close>: creates the directory and the missing ancestors; fails
      when one of them is a regular file\<close>
  "MkdirAll fs path = mkdirs fs (ancestors [] path @ [path])"

fun walk :: "filesys \<Rightarrow> string list \<Rightarrow> os_error" where
  \<comment> \<open>why a path is not found whose ancestors are those given, the outermost first: the
      first ancestor that is not a directory decides, \<open>ENOTDIR\<close> when it is a regular
      file and \<open>ENOENT\<close> when it is missing, as when all are directories\<close>
  "walk fs [] = ENOENT"
| "walk fs (d # ds) =
     (case Stat fs d of
        Some Directory \<Rightarrow> walk fs ds
      | Some (File _) \<Rightarrow> ENOTDIR
      | None \<Rightarrow> ENOENT)"

definition notFound :: "filesys \<Rightarrow> string \<Rightarrow> os_error" where
  \<comment> \<open>the error of the system for a path that is not in the table\<close>
  "notFound fs name = walk fs (ancestors [] name)"

definition openForWrite :: "filesys \<Rightarrow> string \<Rightarrow> os_error option" where
  \<comment> \<open>\<open>os.OpenFile(name, O_WRONLY|O_CREATE|..., perm)\<close>: the error of opening, if any\<close>
  "openForWrite fs name =
     (case Stat fs name of
        Some Directory \<Rightarrow> Some EISDIR
      | _ \<Rightarrow> (case Stat fs (Dir name) of
                Some Directory \<Rightarrow> None
              | Some (File _) \<Rightarrow> Some ENOTDIR
              | None \<Rightarrow> Some (notFound fs (Dir name))))"

definition WriteFile :: "filesys \<Rightarrow> string \<Rightarrow> string \<Rightarrow> os_error + filesys" where
  \<comment> \<open>\<open>os.WriteFile(name, data, perm)\<close>: creates or truncates the file and writes the data\<close>
  "WriteFile fs name data =
     (case openForWrite fs name of
        Some e \<Rightarrow> Inl e
      | None \<Rightarrow> Inr (AList.update name (File data) fs))"

definition ReadFile :: "filesys \<Rightarrow> string \<Rightarrow> os_error + string" where
  \<comment> \<open>\<open>os.ReadFile(name)\<close>\<close>
  "ReadFile fs name =
     (case Stat fs name of
        Some (File data) \<Rightarrow> Inr data
      | Some Directory \<Rightarrow> Inl EISDIR
      | None \<Rightarrow> Inl (notFound fs name))"

subsection \<open>Messages, the agent and its errors\<close>

record FunctionCall =
  fn_Name :: string
  fn_Arguments :: string

record ToolCall =
  tc_ID :: string
  tc_Type :: string
  tc_Function :: FunctionCall

record ChatCompletionMessage =
  Role :: string
  Content :: string
  Name :: string
  ToolCallID :: string
  ToolCalls :: "ToolCall list"
  FunctionCall :: "FunctionCall option"

record AutonomousCodingAgent =
  projectDir :: string
  ctx :: "ChatCompletionMessage list"
  maxCtxMessages :: nat

text \<open>
  The agent's \<open>client\<close> field is the connection to the model service; the service is part of
  the environment below.  Go errors are values of this datatype, one constructor for each
  \<open>fmt.Errorf\<close> and \<open>errors.New\<close> of the program, with the data the message is built from.
\<close>

datatype error =
    InvalidPath string               \<comment> \<open>invalid path (must be relative and stay within project dir)\<close>
  | EscapesProjectDir string         \<comment> \<open>invalid path (escapes project dir)\<close>
  | MkdirFailed string os_error      \<comment> \<open>failed to create directory for ...\<close>
  | WriteFailed string os_error      \<comment> \<open>failed to write file ...\<close>
  | OpenAppendFailed string os_error \<comment> \<open>failed to open/append to file ...\<close>
  | ReadForUpdateFailed string os_error \<comment> \<open>failed to read file ... for update\<close>
  | WriteUpdatedFailed string os_error  \<comment> \<open>failed to write updated content to ...\<close>
  | ReadFailed string os_error       \<comment> \<open>failed to read file ...\<close>
  | ListFailed string os_error       \<comment> \<open>error listing files in ...\<close>
  | InvalidJSON string string        \<comment> \<open>invalid JSON arguments for ...; tool name and raw arguments\<close>
  | EmptyArgument string string string \<comment> \<open>argument ... for ... cannot be empty\<close>
  | UnexpectedArguments string       \<comment> \<open>list_files expects no arguments\<close>
  | UnknownTool string               \<comment> \<open>unknown tool ... requested by LLM\<close>
  | CompletionFailed nat string      \<comment> \<open>CreateChatCompletion failed on step ...\<close>
  | EmptyChoices                     \<comment> \<open>received an empty Choices array from OpenAI\<close>
  | NoContentNoToolCalls             \<comment> \<open>assistant provided no content and no tool calls\<close>
  | TooManyToolInvocations           \<comment> \<open>too many tool invocations without a final answer\<close>
  | Transport string                 \<comment> \<open>\<open>zug.go\<close>: the error of the request, as it is\<close>
  | BadArguments string              \<comment> \<open>\<open>zug.go\<close>: the error of \<open>json.Unmarshal\<close>, as it is\<close>
  | OSError os_error                 \<comment> \<open>\<open>zug.go\<close>: the error of the file system, as it is\<close>
  | UnknownFunction string           \<comment> \<open>unknown function: ...\<close>
  | ChatCompletionError string       \<comment> \<open>chat completion error: ...\<close>
  | NoChoices                        \<comment> \<open>no choices returned from API\<close>
  | UnmarshalArguments string        \<comment> \<open>error unmarshalling function arguments: ...\<close>
  | InvalidArguments string          \<comment> \<open>invalid arguments for function ...\<close>
  | UnknownFunctionCall string       \<comment> \<open>unknown function call: ...\<close>
  | CreateDirError string os_error   \<comment> \<open>error creating directory ...\<close>
  | WriteFileError string os_error   \<comment> \<open>error writing file ...\<close>
  | OpenAppendError string os_error  \<comment> \<open>error opening file ... for appending\<close>
  | RunCommandError string string string
      \<comment> \<open>error running command ...: the command, the error's text, the error stream\<close>

definition NewAgent :: "string \<Rightarrow> filesys \<Rightarrow> os_error + AutonomousCodingAgent \<times> filesys" where
  \<comment> \<open>\<open>NewAgent(apiKey, projectDir)\<close>; the error is the one that \<open>log.Fatalf\<close> reports\<close>
  "NewAgent dir fs =
     (case MkdirAll fs dir of
        Inl e \<Rightarrow> Inl e
      | Inr fs' \<Rightarrow> Inr (\<lparr>projectDir = dir, ctx = [], maxCtxMessages = 40\<rparr>, fs'))"

subsection \<open>The sandbox\<close>

definition absPath :: "AutonomousCodingAgent \<Rightarrow> string \<Rightarrow> error + string" where
  "absPath a rel =
     (let clean = Clean rel in
      if IsAbs clean \<or> HasPrefix clean ''../'' \<or> clean = ''..'' then Inl (InvalidPath rel)
      else
        let full = Join (projectDir a) clean;
            cleanProjectDir = Clean (projectDir a)
        in if \<not> HasPrefix full (cleanProjectDir @ ''/'') \<and> full \<noteq> cleanProjectDir
           then Inl (EscapesProjectDir rel)
           else Inr full)"

subsection \<open>File operations (tools)\<close>

definition createFile ::
  "AutonomousCodingAgent \<Rightarrow> string \<Rightarrow> string \<Rightarrow> filesys \<Rightarrow> (error + string) \<times> filesys" where
  "createFile a path content fs =
     (case absPath a path of
        Inl err \<Rightarrow> (Inl err, fs)
      | Inr full \<Rightarrow>
          (case MkdirAll fs (Dir full) of
             Inl e \<Rightarrow> (Inl (MkdirFailed path e), fs)
           | Inr fs1 \<Rightarrow>
               (case WriteFile fs1 full content of
                  Inl e \<Rightarrow> (Inl (WriteFailed path e), fs1)
                | Inr fs2 \<Rightarrow> (Inr (''file '' @ path @ '' created''), fs2))))"

definition appendFile ::
  "AutonomousCodingAgent \<Rightarrow> string \<Rightarrow> string \<Rightarrow> filesys \<Rightarrow> (error + string) \<times> filesys" where
  "appendFile a path content fs =
     (case absPath a path of
        Inl err \<Rightarrow> (Inl err, fs)
      | Inr full \<Rightarrow>
          (case MkdirAll fs (Dir full) of
             Inl e \<Rightarrow> (Inl (MkdirFailed path e), fs)
           | Inr fs1 \<Rightarrow>
               (case openForWrite fs1 full of
                  Some e \<Rightarrow> (Inl (OpenAppendFailed path e), fs1)
                | None \<Rightarrow>
                    (let old = (case Stat fs1 full of Some (File data) \<Rightarrow> data | _ \<Rightarrow> [])
                     in (Inr (''content appended to '' @ path),
                         AList.update full (File (old @ content)) fs1)))))"

definition readFile ::
  "AutonomousCodingAgent \<Rightarrow> string \<Rightarrow> filesys \<Rightarrow> error + string" where
  "readFile a path fs =
     (case absPath a path of
        Inl err \<Rightarrow> Inl err
      | Inr full \<Rightarrow>
          (case ReadFile fs full of
             Inl e \<Rightarrow> Inl (ReadFailed path e)
           | Inr raw \<Rightarrow> Inr raw))"

subsection \<open>Go library: package regexp\<close>

text \<open>
  A compiled regular expression is its matcher: \<open>doExecute src pos = Some (skip, len, groups)\<close>
  says that the leftmost match at or after byte \<open>pos\<close> of \<open>src\<close> begins at \<open>pos + skip\<close>
  and is \<open>len\<close> bytes long, with the byte ranges of the capture groups \<open>1, 2, ...\<close> (\<open>None\<close>
  for a group that took no part); \<open>None\<close> says that there is no match.  The matcher returns
  positions inside the text.  The library that compiles a pattern and the Unicode tables are
  parameters of the program (\<open>golib\<close> below).
\<close>

record Regexp =
  subexpNames :: "string list"
  doExecute :: "string \<Rightarrow> nat \<Rightarrow> (nat \<times> nat \<times> (nat \<times> nat) option list) option"

definition slice :: "string \<Rightarrow> nat \<Rightarrow> nat \<Rightarrow> string" where
  \<comment> \<open>Go's \<open>s[lo:hi]\<close>\<close>
  "slice s lo hi = take (hi - lo) (drop lo s)"

definition isNameRune :: "(nat \<Rightarrow> bool) \<Rightarrow> nat \<Rightarrow> bool" where
  \<comment> \<open>\<open>unicode.IsLetter(r) || unicode.IsDigit(r) || r == '_'\<close>; the first argument answers
      for the runes that are not ASCII, from the Unicode tables\<close>
  "isNameRune isLetterOrDigit r =
     (if r < 0x80
      then (65 \<le> r \<and> r \<le> 90) \<or> (97 \<le> r \<and> r \<le> 122) \<or> (48 \<le> r \<and> r \<le> 57) \<or> r = 95
      else isLetterOrDigit r)"

function nameLen :: "(nat \<Rightarrow> bool) \<Rightarrow> string \<Rightarrow> nat" where
  \<comment> \<open>the loop of \<open>regexp.extract\<close>: the length of the longest prefix made of letters,
      digits and underscores\<close>
  "nameLen isLetterOrDigit str =
     (if str = [] then 0
      else let (r, size) = DecodeRuneInString str
           in if \<not> isNameRune isLetterOrDigit r then 0
              else size + nameLen isLetterOrDigit (drop size str))"
  by pat_completeness auto
termination
proof (relation "measure (\<lambda>(f, str). length str)", goal_cases)
  case 1
  show ?case by simp
next
  case (2 f str x r size)
  have "str \<noteq> [] \<Longrightarrow> 0 < snd (DecodeRuneInString str)"
    by (cases str) (simp_all add: DecodeRuneInString_def Let_def)
  with 2 have "0 < size"
    by (metis snd_conv)
  with 2 show ?case by simp
qed

declare nameLen.simps [simp del]

fun parseNum :: "nat \<Rightarrow> string \<Rightarrow> nat option" where
  \<comment> \<open>the number a name spells, \<open>None\<close> for Go's \<open>-1\<close>\<close>
  "parseNum num [] = Some num"
| "parseNum num (c # cs) =
     (if of_char c < (48 :: nat) \<or> (57 :: nat) < of_char c \<or> 100000000 \<le> num then None
      else parseNum (num * 10 + (of_char c - 48)) cs)"

definition regexp_extract :: "(nat \<Rightarrow> bool) \<Rightarrow> string \<Rightarrow> (string \<times> nat option \<times> nat) option" where
  \<comment> \<open>\<open>regexp.extract(str)\<close>: the name from a leading \<open>name\<close> or \<open>{name}\<close>, its number, and
      the number of bytes read (the rest of the template is what follows them)\<close>
  "regexp_extract isLetterOrDigit str0 =
     (if str0 = [] then None
      else
        let brace = (hd str0 = CHR ''{'');
            str = (if brace then tl str0 else str0);
            i = nameLen isLetterOrDigit str
        in if i = 0 then None
           else
             let name = take i str in
             if brace \<and> (length str \<le> i \<or> str ! i \<noteq> CHR ''}'') then None
             else
               let num = (if hd name = CHR ''0'' \<and> 1 < length name then None
                          else parseNum 0 name)
               in Some (name, num, if brace then i + 2 else i))"

fun namedGroup ::
  "string \<Rightarrow> string list \<Rightarrow> (nat \<times> nat) option list \<Rightarrow> (nat \<times> nat) option" where
  \<comment> \<open>the first group of that name that took part in the match\<close>
  "namedGroup name (namei # names) (m # ms) =
     (if name = namei \<and> m \<noteq> None then m else namedGroup name names ms)"
| "namedGroup name _ _ = None"

function expand ::
  "(nat \<Rightarrow> bool) \<Rightarrow> Regexp \<Rightarrow> string \<Rightarrow> string \<Rightarrow> (nat \<times> nat) option list \<Rightarrow> string" where
  \<comment> \<open>\<open>re.expand(dst, template, nil, src, match)\<close>: what is appended to \<open>dst\<close>\<close>
  "expand isLetterOrDigit re template src match =
     (let before = takeWhile (\<lambda>c. c \<noteq> CHR ''$'') template;
          found = dropWhile (\<lambda>c. c \<noteq> CHR ''$'') template
      in if found = [] then template
         else
           let after = tl found in
           if after \<noteq> [] \<and> hd after = CHR ''$''
           then before @ ''$'' @ expand isLetterOrDigit re (tl after) src match
           else
             (case regexp_extract isLetterOrDigit after of
                None \<Rightarrow> before @ ''$'' @ expand isLetterOrDigit re after src match
              | Some (name, num, n) \<Rightarrow>
                  let group = (case num of
                                 Some k \<Rightarrow> (if k < length match then match ! k else None)
                               | None \<Rightarrow> namedGroup name (subexpNames re) match);
                      text = (case group of None \<Rightarrow> [] | Some (lo, hi) \<Rightarrow> slice src lo hi)
                  in before @ text @ expand isLetterOrDigit re (drop n after) src match))"
  by pat_completeness auto
termination
proof (relation "measure (\<lambda>(f, re, template, src, match). length template)", goal_cases)
  case 1
  show ?case by simp
next
  case (2 f re template src match before found after)
  have "length found \<le> length template"
    unfolding 2(2) by (rule length_dropWhile_le)
  moreover have "length (tl after) < length found"
    using 2(3-5) by (simp add: length_tl)
  ultimately show ?case by simp
next
  case (3 f re template src match before found after)
  have "length found \<le> length template"
    unfolding 3(2) by (rule length_dropWhile_le)
  moreover have "length after < length found"
    using 3(3,4) by (simp add: length_tl)
  ultimately show ?case by simp
next
  case (4 f re template src match before found after x2 name y num n)
  have "length found \<le> length template"
    unfolding 4(2) by (rule length_dropWhile_le)
  moreover have "length after < length found"
    using 4(3,4) by (simp add: length_tl)
  ultimately show ?case by simp
qed

declare expand.simps [simp del]

function replaceAll ::
  "(nat \<Rightarrow> bool) \<Rightarrow> Regexp \<Rightarrow> string \<Rightarrow> string \<Rightarrow> nat \<Rightarrow> nat \<Rightarrow> string \<Rightarrow> string" where
  \<comment> \<open>the loop of \<open>re.replaceAll\<close>, from the state \<open>lastMatchEnd\<close>, \<open>searchPos\<close>, \<open>buf\<close>\<close>
  "replaceAll isLetterOrDigit re src repl lastMatchEnd searchPos buf =
     (if searchPos \<le> length src then
        (case doExecute re src searchPos of
           None \<Rightarrow> buf @ drop lastMatchEnd src
         | Some (skip, len, groups) \<Rightarrow>
             let a0 = searchPos + skip;
                 a1 = a0 + len;
                 buf1 = buf @ slice src lastMatchEnd a0;
                 buf2 = (if lastMatchEnd < a1 \<or> a0 = 0
                         then buf1 @ expand isLetterOrDigit re repl src (Some (a0, a1) # groups)
                         else buf1);
                 width = snd (DecodeRuneInString (drop searchPos src));
                 searchPos' = (if a1 < searchPos + width then searchPos + width
                               else if a1 < searchPos + 1 then searchPos + 1
                               else a1)
             in replaceAll isLetterOrDigit re src repl a1 searchPos' buf2)
      else buf @ drop lastMatchEnd src)"
  by pat_completeness auto
termination
  by (relation "measure (\<lambda>(f, re, src, repl, lastMatchEnd, searchPos, buf).
                           Suc (length src) - searchPos)")
     auto

declare replaceAll.simps [simp del]

definition ReplaceAllString :: "(nat \<Rightarrow> bool) \<Rightarrow> Regexp \<Rightarrow> string \<Rightarrow> string \<Rightarrow> string" where
  \<comment> \<open>\<open>re.ReplaceAllString(src, repl)\<close>\<close>
  "ReplaceAllString isLetterOrDigit re src repl = replaceAll isLetterOrDigit re src repl 0 0 []"

subsection \<open>Go library: package encoding/json\<close>

text \<open>
  The parser of JSON text is a parameter; what \<open>json.Unmarshal\<close> does with the parsed value
  is modelled.  Decoding an object into a struct of string fields sets the field that a key
  names (the case of letters ignored), leaves a field without key at the empty string, skips
  \<open>null\<close>, and reports a value that is not a string as an error; \<open>null\<close> at the top decodes
  to the untouched struct, anything else than an object is an error.  The field names of
  this program are ASCII without \<open>k\<close> and \<open>s\<close>, the two letters that fold with runes
  outside ASCII, so comparing the ASCII lower-case forms is Go's comparison.
\<close>

datatype json =
    JNull | JBool bool | JNumber string | JString string
  | JArray "json list" | JObject "(string \<times> json) list"

definition asciiLower :: "char \<Rightarrow> char" where
  "asciiLower c =
     (if (65 :: nat) \<le> of_char c \<and> of_char c \<le> (90 :: nat)
      then char_of (of_char c + (32 :: nat)) else c)"

definition fieldOf :: "string list \<Rightarrow> string \<Rightarrow> string option" where
  "fieldOf names key = List.find (\<lambda>f. map asciiLower key = map asciiLower f) names"

definition isStringOrNull :: "json \<Rightarrow> bool" where
  "isStringOrNull v = (case v of JString _ \<Rightarrow> True | JNull \<Rightarrow> True | _ \<Rightarrow> False)"

definition structField :: "string list \<Rightarrow> (string \<times> json) list \<Rightarrow> string \<Rightarrow> string" where
  \<comment> \<open>the value of a field after the pairs of the object were decoded in their order\<close>
  "structField names kvs f =
     fold (\<lambda>(k, v) acc.
             if fieldOf names k = Some f
             then (case v of JString str \<Rightarrow> str | _ \<Rightarrow> acc)
             else acc) kvs []"

definition unmarshalStruct :: "string list \<Rightarrow> json option \<Rightarrow> (string \<Rightarrow> string) option" where
  \<comment> \<open>\<open>json.Unmarshal\<close> into a struct with the given string fields; \<open>None\<close> is an error\<close>
  "unmarshalStruct names parsed =
     (case parsed of
        None \<Rightarrow> None
      | Some JNull \<Rightarrow> Some (\<lambda>f. [])
      | Some (JObject kvs) \<Rightarrow>
          if \<forall>(k, v) \<in> set kvs. fieldOf names k \<noteq> None \<longrightarrow> isStringOrNull v
          then Some (structField names kvs)
          else None
      | Some _ \<Rightarrow> None)"

definition unmarshalMap :: "json option \<Rightarrow> (string \<times> json) list option" where
  \<comment> \<open>\<open>json.Unmarshal\<close> into a \<open>map[string]interface{}\<close>\<close>
  "unmarshalMap parsed =
     (case parsed of
        None \<Rightarrow> None
      | Some JNull \<Rightarrow> Some []
      | Some (JObject kvs) \<Rightarrow> Some kvs
      | Some _ \<Rightarrow> None)"

subsection \<open>The libraries and the world outside\<close>

record golib =
  Compile :: "string \<Rightarrow> Regexp option"
    \<comment> \<open>\<open>regexp.Compile\<close>; \<open>None\<close> when the pattern does not parse\<close>
  IsLetterOrDigit :: "nat \<Rightarrow> bool"
    \<comment> \<open>\<open>unicode.IsLetter(r) || unicode.IsDigit(r)\<close> for the runes from U+0080 on\<close>
  ToLower :: "string \<Rightarrow> string"
    \<comment> \<open>\<open>strings.ToLower\<close>\<close>
  ParseJSON :: "string \<Rightarrow> json option"
    \<comment> \<open>the JSON value a text denotes; \<open>None\<close> for a syntax error\<close>
  ErrorText :: "error \<Rightarrow> string"
    \<comment> \<open>\<open>err.Error()\<close>: the message of an error of the program\<close>

datatype exec_error =
    ExitError string    \<comment> \<open>the command ran and exited with a status that is not zero\<close>
  | StartError string   \<comment> \<open>the process could not be started\<close>

fun exec_text :: "exec_error \<Rightarrow> string" where
  \<comment> \<open>\<open>err.Error()\<close> of an error of \<open>os/exec\<close>\<close>
  "exec_text (ExitError txt) = txt"
| "exec_text (StartError txt) = txt"

record World =
  files :: filesys
  tick :: nat    \<comment> \<open>the number of calls made to the world outside so far\<close>

text \<open>
  The model service and the shell are outside the program.  What they answer may depend on
  the request and on everything before it: each is a function of the number of the call.  A
  command may change the files; it always ends.
\<close>

record env =
  CreateChatCompletion ::
    "nat \<Rightarrow> ChatCompletionMessage list \<Rightarrow> string + ChatCompletionMessage list"
    \<comment> \<open>the request's messages to an error or the messages of the response's choices\<close>
  CombinedOutput ::
    "nat \<Rightarrow> string list \<Rightarrow> string \<Rightarrow> filesys \<Rightarrow> (string \<times> exec_error option) \<times> filesys"
    \<comment> \<open>\<open>exec.Command(argv...)\<close> with \<open>Dir\<close> set, run to its end: the output on both
        streams, the error, the files afterwards\<close>
  Run ::
    "nat \<Rightarrow> string list \<Rightarrow> string \<Rightarrow> filesys
       \<Rightarrow> ((string \<times> string) \<times> exec_error option) \<times> filesys"
    \<comment> \<open>the same with a buffer for each stream: standard output, standard error\<close>

subsection \<open>File operations (tools), continued\<close>

definition updateFile ::
  "golib \<Rightarrow> AutonomousCodingAgent \<Rightarrow> string \<Rightarrow> string \<Rightarrow> string \<Rightarrow> filesys
     \<Rightarrow> (error + string) \<times> filesys" where
  "updateFile L a path find' replace fs =
     (case absPath a path of
        Inl err \<Rightarrow> (Inl err, fs)
      | Inr full \<Rightarrow>
          (case ReadFile fs full of
             Inl e \<Rightarrow> (Inl (ReadForUpdateFailed path e), fs)
           | Inr src \<Rightarrow>
               let dst = (case Compile L find' of
                            Some re \<Rightarrow> ReplaceAllString (IsLetterOrDigit L) re src replace
                          | None \<Rightarrow> ReplaceAll src find' replace)
               in if dst = src
                  then (Inr (''nothing replaced in '' @ path
                             @ '' (content was identical or find pattern did not match)''), fs)
                  else (case WriteFile fs full dst of
                          Inl e \<Rightarrow> (Inl (WriteUpdatedFailed path e), fs)
                        | Inr fs' \<Rightarrow> (Inr (''updated '' @ path), fs'))))"

text \<open>
  \<open>listFiles\<close> walks the tree below the project directory in lexical order, directory by
  directory, and collects the regular files.  The table is a tree: the parent of every entry
  is a directory.
\<close>

definition Rel :: "string \<Rightarrow> string \<Rightarrow> string option" where
  \<comment> \<open>\<open>filepath.Rel(root, p)\<close> for a cleaned \<open>p\<close> at or below the cleaned \<open>root\<close>\<close>
  "Rel root p =
     (if p = root then Some ''.''
      else if root = ''/'' then (if IsAbs p then Some (tl p) else None)
      else if root = ''.''
        then (if IsAbs p \<or> p = ''..'' \<or> HasPrefix p ''../'' then None else Some p)
      else if HasPrefix p (root @ ''/'') then Some (drop (length root + 1) p)
      else None)"

definition listFiles :: "AutonomousCodingAgent \<Rightarrow> filesys \<Rightarrow> error + string" where
  "listFiles a fs =
     (let projectRoot = Clean (projectDir a) in
      case Stat fs projectRoot of
        None \<Rightarrow> Inl (ListFailed projectRoot (notFound fs projectRoot))
      | Some (File _) \<Rightarrow> Inr ''.''
      | Some Directory \<Rightarrow>
          let list = map (\<lambda>elems. Join_strings elems ''/'')
                       (sort (map Split_slash
                          (List.map_filter
                             (\<lambda>(p, n). case n of File _ \<Rightarrow> Rel projectRoot p | Directory \<Rightarrow> None)
                             fs)))
          in if length list = 0 then Inr ''No files found in the project.''
             else Inr (Join_strings list [CHR 0x0A]))"

subsection \<open>Shell runner (tool)\<close>

definition runShell ::
  "env \<Rightarrow> AutonomousCodingAgent \<Rightarrow> string \<Rightarrow> World \<Rightarrow> (error + string) \<times> World" where
  "runShell E a cmd w =
     (let ((out, err), fs') =
            CombinedOutput E (tick w) [''bash'', ''-c'', cmd] (projectDir a) (files w);
          w' = w\<lparr>files := fs', tick := Suc (tick w)\<rparr>;
          outputStr = TrimSpace out
      in case err of
           Some e \<Rightarrow>
             (Inr (''Output:'' @ [CHR 0x0A] @ outputStr @ [CHR 0x0A] @ ''ERROR: '' @ exec_text e), w')
         | None \<Rightarrow> (Inr outputStr, w'))"

subsection \<open>Dispatch of a tool call\<close>

definition onFiles ::
  "World \<Rightarrow> (error + string) \<times> filesys \<Rightarrow> (error + string) \<times> World" where
  \<comment> \<open>the result of a file operation, in the world\<close>
  "onFiles w r = (fst r, w\<lparr>files := snd r\<rparr>)"

definition execTool ::
  "golib \<Rightarrow> env \<Rightarrow> AutonomousCodingAgent \<Rightarrow> string \<Rightarrow> string \<Rightarrow> World
     \<Rightarrow> (error + string) \<times> World" where
  "execTool L E a name jsonArgs w =
     (if name = ''create_file'' \<or> name = ''append_file'' then
        (case unmarshalStruct [''path'', ''content''] (ParseJSON L jsonArgs) of
           None \<Rightarrow> (Inl (InvalidJSON name jsonArgs), w)
         | Some p \<Rightarrow>
             if TrimSpace (p ''path'') = [] then (Inl (EmptyArgument ''path'' name jsonArgs), w)
             else if name = ''create_file''
               then onFiles w (createFile a (p ''path'') (p ''content'') (files w))
               else onFiles w (appendFile a (p ''path'') (p ''content'') (files w)))
      else if name = ''update_file'' then
        (case unmarshalStruct [''path'', ''find'', ''replace''] (ParseJSON L jsonArgs) of
           None \<Rightarrow> (Inl (InvalidJSON name jsonArgs), w)
         | Some p \<Rightarrow>
             if TrimSpace (p ''path'') = [] then (Inl (EmptyArgument ''path'' name jsonArgs), w)
             else onFiles w (updateFile L a (p ''path'') (p ''find'') (p ''replace'') (files w)))
      else if name = ''read_file'' then
        (case unmarshalStruct [''path''] (ParseJSON L jsonArgs) of
           None \<Rightarrow> (Inl (InvalidJSON name jsonArgs), w)
         | Some p \<Rightarrow>
             if TrimSpace (p ''path'') = [] then (Inl (EmptyArgument ''path'' name jsonArgs), w)
             else (readFile a (p ''path'') (files w), w))
      else if name = ''list_files'' then
        (case unmarshalMap (ParseJSON L jsonArgs) of
           None \<Rightarrow> (Inl (InvalidJSON name jsonArgs), w)
         | Some p \<Rightarrow>
             if length p \<noteq> 0 then (Inl (UnexpectedArguments jsonArgs), w)
             else (listFiles a (files w), w))
      else if name = ''run_shell'' then
        (case unmarshalStruct [''command''] (ParseJSON L jsonArgs) of
           None \<Rightarrow> (Inl (InvalidJSON name jsonArgs), w)
         | Some p \<Rightarrow>
             if TrimSpace (p ''command'') = []
             then (Inl (EmptyArgument ''command'' name jsonArgs), w)
             else runShell E a (p ''command'') w)
      else (Inl (UnknownTool name), w))"

subsection \<open>The conversation with the model\<close>

definition systemPrompt :: ChatCompletionMessage where
  "systemPrompt =
     \<lparr>Role = ''system'',
      Content = ''You are AutonomousCoder, a senior software engineer. Work step-by-step: decide which file to read or modify, or which shell command to run, using the provided tools. File paths should always be relative to the project root. Iterate until the tests pass or the goal is reached. Respond concisely. If a tool fails, analyze the error and try to fix the issue in your next step. If a shell command produces an error, that error will be part of its output. If a file operation results in 'nothing changed', consider if the 'find' pattern was correct or if the file already has the desired content. Be precise with file paths. Always use 'list_files' if unsure about file existence or names before attempting to read or write.'',
      Name = [], ToolCallID = [], ToolCalls = [], FunctionCall = None\<rparr>"

text \<open>
  A request carries, beside the messages, the tool definitions, the model and the sampling
  parameters: constants, apart from the temperature that \<open>chat\<close> is given.  They decide
  nothing in the program and are left out.

  The state of a run: the agent, the world, and the history of what was done to the
  conversation (each message appended to \<open>a.ctx\<close> and each request sent to the model
  service, in their order).  The program never reads the history; it is there for the
  properties to speak of.
\<close>

datatype event = Appended ChatCompletionMessage | Sent "ChatCompletionMessage list"

record State =
  agent :: AutonomousCodingAgent
  world :: World
  trace :: "event list"

definition appendCtx :: "ChatCompletionMessage \<Rightarrow> State \<Rightarrow> State" where
  \<comment> \<open>\<open>a.ctx = append(a.ctx, msg)\<close>\<close>
  "appendCtx msg st =
     st\<lparr>agent := (agent st)\<lparr>ctx := ctx (agent st) @ [msg]\<rparr>,
        trace := trace st @ [Appended msg]\<rparr>"

definition trimCtx :: "State \<Rightarrow> State" where
  \<comment> \<open>\<open>cutoff := len(a.ctx) - a.maxCtxMessages; a.ctx = a.ctx[cutoff:]\<close>\<close>
  "trimCtx st =
     (let a = agent st; cutoff = length (ctx a) - maxCtxMessages a
      in st\<lparr>agent := a\<lparr>ctx := drop cutoff (ctx a)\<rparr>\<rparr>)"

definition toolResponse ::
  "golib \<Rightarrow> env \<Rightarrow> ToolCall \<Rightarrow> State \<Rightarrow> ChatCompletionMessage \<times> State" where
  \<comment> \<open>the body of the loop over \<open>msg.ToolCalls\<close>: the message that answers one call\<close>
  "toolResponse L E toolCall st =
     (if tc_Type toolCall = ''function'' then
        (let toolName = fn_Name (tc_Function toolCall);
             toolArgs = fn_Arguments (tc_Function toolCall);
             (r, w') = execTool L E (agent st) toolName toolArgs (world st);
             toolResult = (case r of
                             Inl toolErr \<Rightarrow> ''TOOL_EXECUTION_ERROR for '' @ toolName @ '': ''
                                              @ ErrorText L toolErr
                           | Inr res \<Rightarrow> res)
         in (\<lparr>Role = ''tool'', Content = toolResult, Name = toolName,
              ToolCallID = tc_ID toolCall, ToolCalls = [], FunctionCall = None\<rparr>,
             st\<lparr>world := w'\<rparr>))
      else
        (\<lparr>Role = ''tool'',
          Content = ''Error: Tool type '' @ [CHR 0x27] @ tc_Type toolCall @ [CHR 0x27]
                    @ '' is not supported by the agent.'',
          Name = fn_Name (tc_Function toolCall),
          ToolCallID = tc_ID toolCall, ToolCalls = [], FunctionCall = None\<rparr>, st))"

fun toolCalls ::
  "golib \<Rightarrow> env \<Rightarrow> ToolCall list \<Rightarrow> ChatCompletionMessage list \<Rightarrow> State
     \<Rightarrow> ChatCompletionMessage list \<times> State" where
  \<comment> \<open>the loop over \<open>msg.ToolCalls\<close>: every answer is appended to \<open>a.ctx\<close> and to
      \<open>messagesForAPI\<close>\<close>
  "toolCalls L E [] messagesForAPI st = (messagesForAPI, st)"
| "toolCalls L E (toolCall # rest) messagesForAPI st =
     (let (toolResponseMessage, st') = toolResponse L E toolCall st
      in toolCalls L E rest (messagesForAPI @ [toolResponseMessage])
           (appendCtx toolResponseMessage st'))"

function chatLoop ::
  "golib \<Rightarrow> env \<Rightarrow> nat \<Rightarrow> ChatCompletionMessage list \<Rightarrow> State \<Rightarrow> (error + string) \<times> State" where
  \<comment> \<open>\<open>for step := 0; step < 10; step++\<close>, from \<open>step\<close> on\<close>
  "chatLoop L E step messagesForAPI st =
     (if step < 10 then
        (let resp = CreateChatCompletion E (tick (world st)) messagesForAPI;
             st1 = st\<lparr>world := (world st)\<lparr>tick := Suc (tick (world st))\<rparr>,
                      trace := trace st @ [Sent messagesForAPI]\<rparr>
         in case resp of
              Inl err \<Rightarrow> (Inl (CompletionFailed (step + 1) err), st1)
            | Inr choices \<Rightarrow>
                if length choices = 0 then (Inl EmptyChoices, st1)
                else
                  let msg = hd choices;
                      st2 = appendCtx msg st1;
                      messagesForAPI2 = messagesForAPI @ [msg]
                  in if length (ToolCalls msg) = 0 then
                       (if Content msg = [] then (Inl NoContentNoToolCalls, st2)
                        else (Inr (Content msg), st2))
                     else
                       let (messagesForAPI3, st3) =
                             toolCalls L E (ToolCalls msg) messagesForAPI2 st2
                       in if maxCtxMessages (agent st3) < length (ctx (agent st3))
                          then let st4 = trimCtx st3
                               in chatLoop L E (step + 1) (systemPrompt # ctx (agent st4)) st4
                          else chatLoop L E (step + 1) messagesForAPI3 st3)
      else (Inl TooManyToolInvocations, st))"
  by pat_completeness auto
termination
  by (relation "measure (\<lambda>(L, E, step, messagesForAPI, st). 10 - step)") auto

declare chatLoop.simps [simp del]

definition chat :: "golib \<Rightarrow> env \<Rightarrow> string \<Rightarrow> State \<Rightarrow> (error + string) \<times> State" where
  \<comment> \<open>the temperature goes to the service with the request and decides nothing here\<close>
  "chat L E userPrompt st =
     (let st1 = appendCtx \<lparr>Role = ''user'', Content = userPrompt, Name = [], ToolCallID = [],
                           ToolCalls = [], FunctionCall = None\<rparr> st;
          st2 = (if maxCtxMessages (agent st1) < length (ctx (agent st1))
                 then trimCtx st1 else st1);
          messagesForAPI = systemPrompt # ctx (agent st2)
      in chatLoop L E 0 messagesForAPI st2)"

subsection \<open>The feedback loop\<close>

datatype outcome =
    Aborted error    \<comment> \<open>the chat failed: the loop returns\<close>
  | TestsPassed      \<comment> \<open>all tests passed: task considered complete\<close>
  | NoTests          \<comment> \<open>no \<open>tests\<close> directory: task processing complete\<close>
  | Exhausted        \<comment> \<open>reached maximum turns in feedback loop\<close>

definition testsPassed :: "golib \<Rightarrow> string \<Rightarrow> bool" where
  \<comment> \<open>the condition under which \<open>feedbackLoop\<close> takes the tests as passed\<close>
  "testsPassed L testOutput =
     (\<not> Contains (ToLower L testOutput) ''fail''
      \<and> \<not> Contains (ToLower L testOutput) ''error''
      \<and> (Contains (ToLower L testOutput) ''pass''
         \<or> Contains (ToLower L testOutput) ''no tests ran''))"

definition isDir :: "filesys \<Rightarrow> string \<Rightarrow> bool" where
  \<comment> \<open>\<open>info, statErr := os.Stat(dir); statErr == nil && info.IsDir()\<close>\<close>
  "isDir fs dir = (Stat fs dir = Some Directory)"

function feedbackTurns ::
  "golib \<Rightarrow> env \<Rightarrow> nat \<Rightarrow> string \<Rightarrow> State \<Rightarrow> (outcome \<times> nat) \<times> State" where
  \<comment> \<open>\<open>for turn := 0; turn < 10; turn++\<close>, from \<open>turn\<close> on; beside the outcome, the number of
      turns begun.  The pause of one second between two turns is left out.\<close>
  "feedbackTurns L E turn currentTaskInstruction st =
     (if turn < 10 then
        (case chat L E currentTaskInstruction st of
           (Inl err, st1) \<Rightarrow> ((Aborted err, turn + 1), st1)
         | (Inr assistantReply, st1) \<Rightarrow>
             let testsDir = Join (projectDir (agent st1)) ''tests'' in
             if isDir (files (world st1)) testsDir then
               (let testCommand = ''pytest -q --maxfail=1 --disable-warnings tests/'';
                    (r, w') = runShell E (agent st1) testCommand (world st1);
                    testOutput = (case r of Inr out \<Rightarrow> out | Inl _ \<Rightarrow> []);
                    st2 = st1\<lparr>world := w'\<rparr>
                in if testsPassed L testOutput then ((TestsPassed, turn + 1), st2)
                   else feedbackTurns L E (turn + 1)
                          (''The previous operations led to test failures. Please analyze the following test output and fix the code. Test output:''
                           @ [CHR 0x0A] @ testOutput) st2)
             else ((NoTests, turn + 1), st1))
      else ((Exhausted, turn), st))"
  by pat_completeness auto
termination
  by (relation "measure (\<lambda>(L, E, turn, instr, st). 10 - turn)") auto

declare feedbackTurns.simps [simp del]

definition feedbackLoop :: "golib \<Rightarrow> env \<Rightarrow> string \<Rightarrow> State \<Rightarrow> (outcome \<times> nat) \<times> State" where
  "feedbackLoop L E initialTask st = feedbackTurns L E 0 initialTask st"

section \<open>The two other variants\<close>

subsection \<open>Go library: strings.Fields\<close>

definition spaceWidth :: "string \<Rightarrow> nat" where
  \<comment> \<open>the width of the white space rune the string begins with, 0 when it begins otherwise\<close>
  "spaceWidth s =
     (case List.find (\<lambda>w. prefix w s) whiteSpace of None \<Rightarrow> 0 | Some w \<Rightarrow> length w)"

function fieldsFrom :: "string \<Rightarrow> string \<Rightarrow> string list" where
  \<comment> \<open>the fields of the text; the first argument is the field being read, reversed\<close>
  "fieldsFrom cur s =
     (if s = [] then (if cur = [] then [] else [rev cur])
      else if spaceWidth s = 0 then fieldsFrom (hd s # cur) (tl s)
      else (if cur = [] then [] else [rev cur]) @ fieldsFrom [] (drop (spaceWidth s) s))"
  by pat_completeness auto
termination
  by (relation "measure (\<lambda>(cur, s). length s)") auto

declare fieldsFrom.simps [simp del]

definition Fields :: "string \<Rightarrow> string list" where
  \<comment> \<open>\<open>strings.Fields(s)\<close>: the pieces of the text between runs of white space\<close>
  "Fields s = fieldsFrom [] s"

subsection \<open>zug.go\<close>

record Agent_zug =
  projectDir_zug :: string
  context_zug :: "ChatCompletionMessage list"

text \<open>
  A state of this variant is the agent and the world.  An index out of range stops the
  program with a panic: \<open>Panic\<close> stands for it.
\<close>

datatype 'a go = Panic | Returns 'a

definition createFile_zug ::
  "Agent_zug \<Rightarrow> string \<Rightarrow> string \<Rightarrow> filesys \<Rightarrow> (error + string) \<times> filesys" where
  "createFile_zug a relPath content fs =
     (let fullPath = Join (projectDir_zug a) relPath in
      case MkdirAll fs (Dir fullPath) of
        Inl e \<Rightarrow> (Inl (OSError e), fs)
      | Inr fs1 \<Rightarrow>
          (case WriteFile fs1 fullPath content of
             Inl e \<Rightarrow> (Inl (OSError e), fs1)
           | Inr fs2 \<Rightarrow> (Inr (''File created: '' @ fullPath), fs2)))"

definition appendFile_zug ::
  "Agent_zug \<Rightarrow> string \<Rightarrow> string \<Rightarrow> filesys \<Rightarrow> (error + string) \<times> filesys" where
  "appendFile_zug a relPath content fs =
     (let fullPath = Join (projectDir_zug a) relPath in
      case openForWrite fs fullPath of
        Some e \<Rightarrow> (Inl (OSError e), fs)
      | None \<Rightarrow>
          (let old = (case Stat fs fullPath of Some (File data) \<Rightarrow> data | _ \<Rightarrow> [])
           in (Inr (''Appended to: '' @ fullPath),
               AList.update fullPath (File (old @ content)) fs)))"

definition systemPrompt_zug :: ChatCompletionMessage where
  "systemPrompt_zug =
     \<lparr>Role = ''system'', Content = ''You are a helpful coding assistant.'',
      Name = [], ToolCallID = [], ToolCalls = [], FunctionCall = None\<rparr>"

definition askModel_zug ::
  "golib \<Rightarrow> env \<Rightarrow> string \<Rightarrow> Agent_zug \<times> World \<Rightarrow> (error + string) go \<times> Agent_zug \<times> World" where
  "askModel_zug L E prompt st =
     (let a = fst st; w = snd st;
          messages = [systemPrompt_zug] @ context_zug a
                     @ [\<lparr>Role = ''user'', Content = prompt, Name = [], ToolCallID = [],
                         ToolCalls = [], FunctionCall = None\<rparr>];
          w1 = w\<lparr>tick := Suc (tick w)\<rparr>
      in case CreateChatCompletion E (tick w) messages of
           Inl err \<Rightarrow> (Returns (Inl (Transport err)), a, w1)
         | Inr choices \<Rightarrow>
             if choices = [] then (Panic, a, w1)
             else
               let choice = hd choices;
                   a1 = a\<lparr>context_zug := context_zug a @ [choice]\<rparr>
               in case FunctionCall choice of
                    Some call \<Rightarrow>
                      (case unmarshalStruct [''path'', ''content'']
                              (ParseJSON L (fn_Arguments call)) of
                         None \<Rightarrow> (Returns (Inl (BadArguments (fn_Arguments call))), a1, w1)
                       | Some args \<Rightarrow>
                           if fn_Name call = ''create_file'' then
                             (let (r, fs') = createFile_zug a1 (args ''path'') (args ''content'')
                                               (files w1)
                              in (Returns r, a1, w1\<lparr>files := fs'\<rparr>))
                           else if fn_Name call = ''append_file'' then
                             (let (r, fs') = appendFile_zug a1 (args ''path'') (args ''content'')
                                               (files w1)
                              in (Returns r, a1, w1\<lparr>files := fs'\<rparr>))
                           else (Returns (Inl (UnknownFunction (fn_Name call))), a1, w1))
                  | None \<Rightarrow> (Returns (Inr (Content choice)), a1, w1))"

definition runShell_zug ::
  "env \<Rightarrow> Agent_zug \<Rightarrow> string \<Rightarrow> World \<Rightarrow> (string \<times> exec_error option) go \<times> World" where
  \<comment> \<open>returns the output and the error, both as they are\<close>
  "runShell_zug E a cmd w =
     (let parts = Fields cmd in
      if parts = [] then (Panic, w)
      else
        let ((out, err), fs') = CombinedOutput E (tick w) parts (projectDir_zug a) (files w)
        in (Returns (out, err), w\<lparr>files := fs', tick := Suc (tick w)\<rparr>))"

datatype outcome_zug =
    AskFailed error    \<comment> \<open>error asking model: the loop returns\<close>
  | Crashed            \<comment> \<open>the program stopped with a panic\<close>
  | AllTestsPassed     \<comment> \<open>all tests passed: the loop ends\<close>
  | NoTestsFound       \<comment> \<open>no tests found, task complete: the loop ends\<close>

definition testsPassed_zug :: "golib \<Rightarrow> string \<Rightarrow> bool" where
  "testsPassed_zug L testOut = (\<not> Contains (ToLower L testOut) ''failed'')"

text \<open>
  The loop \<open>for { ... }\<close> has no bound.  Its model runs at most \<open>fuel\<close> turns: the result is
  \<open>None\<close> when the loop is still running after them; with it, the number of turns begun.
\<close>

fun feedbackLoop_zug ::
  "nat \<Rightarrow> golib \<Rightarrow> env \<Rightarrow> string \<Rightarrow> Agent_zug \<times> World
     \<Rightarrow> (outcome_zug option \<times> nat) \<times> Agent_zug \<times> World" where
  "feedbackLoop_zug 0 L E instruction st = ((None, 0), st)"
| "feedbackLoop_zug (Suc fuel) L E instruction st =
     (case askModel_zug L E instruction st of
        (Panic, st1) \<Rightarrow> ((Some Crashed, 1), st1)
      | (Returns (Inl err), st1) \<Rightarrow> ((Some (AskFailed err), 1), st1)
      | (Returns (Inr output), a1, w1) \<Rightarrow>
          let testsDir = Join (projectDir_zug a1) ''tests'' in
          if isDir (files w1) testsDir then
            (case runShell_zug E a1 ''pytest --maxfail=1 --disable-warnings -q'' w1 of
               (Panic, w2) \<Rightarrow> ((Some Crashed, 1), a1, w2)
             | (Returns (testOut, _), w2) \<Rightarrow>
                 if testsPassed_zug L testOut then ((Some AllTestsPassed, 1), a1, w2)
                 else
                   let ((out, turns), st3) =
                         feedbackLoop_zug fuel L E
                           (''Tests failed. Here is the output:'' @ [CHR 0x0A] @ testOut
                            @ [CHR 0x0A] @ ''Please fix the errors.'') (a1, w2)
                   in ((out, Suc turns), st3))
          else ((Some NoTestsFound, 1), a1, w1))"

subsection \<open>The third file\<close>







definition testsPassed_v2 :: "golib \<Rightarrow> string \<Rightarrow> bool" where
  "testsPassed_v2 L testOutput =
     (\<not> Contains (ToLower L testOutput) ''failed'' \<and> \<not> Contains (ToLower L testOutput) ''error'')"


section \<open>Notions for the properties\<close>

fun requests :: "event list \<Rightarrow> ChatCompletionMessage list list" where
  \<comment> \<open>the requests sent to the model service, in their order\<close>
  "requests [] = []"
| "requests (Sent msgs # tr) = msgs # requests tr"
| "requests (Appended m # tr) = requests tr"

fun appended :: "event list \<Rightarrow> ChatCompletionMessage list" where
  \<comment> \<open>the messages appended to the conversation, in their order\<close>
  "appended [] = []"
| "appended (Appended m # tr) = m # appended tr"
| "appended (Sent msgs # tr) = appended tr"

definition lastN :: "nat \<Rightarrow> 'a list \<Rightarrow> 'a list" where
  \<comment> \<open>the last \<open>n\<close> elements of a list, all of them when there are fewer\<close>
  "lastN n xs = drop (length xs - n) xs"

fun windowed :: "nat \<Rightarrow> ChatCompletionMessage list \<Rightarrow> event list \<Rightarrow> bool" where
  \<comment> \<open>every request of the history is the system prompt followed by the last \<open>n\<close> of the
      messages appended before it; the second argument holds the messages appended before
      the history begins\<close>
  "windowed n log [] = True"
| "windowed n log (Appended m # tr) = windowed n (log @ [m]) tr"
| "windowed n log (Sent msgs # tr) = (msgs = systemPrompt # lastN n log \<and> windowed n log tr)"

definition window_inv :: "State \<Rightarrow> bool" where
  \<comment> \<open>the last \<open>maxCtxMessages\<close> messages of the conversation are the last \<open>maxCtxMessages\<close>
      messages ever appended, and every request so far was made of them\<close>
  "window_inv st =
     (lastN (maxCtxMessages (agent st)) (ctx (agent st))
        = lastN (maxCtxMessages (agent st)) (appended (trace st))
      \<and> windowed (maxCtxMessages (agent st)) [] (trace st))"

definition fromService :: "env \<Rightarrow> ChatCompletionMessage \<Rightarrow> bool" where
  \<comment> \<open>the message is the first choice of a response of the model service\<close>
  "fromService E m = (\<exists>n msgs others. CreateChatCompletion E n msgs = Inr (m # others))"

definition sent :: "ChatCompletionMessage list \<Rightarrow> State \<Rightarrow> State" where
  \<comment> \<open>the state after a request was sent\<close>
  "sent messagesForAPI st =
     st\<lparr>world := (world st)\<lparr>tick := Suc (tick (world st))\<rparr>,
        trace := trace st @ [Sent messagesForAPI]\<rparr>"

definition userMessage :: "string \<Rightarrow> ChatCompletionMessage" where
  \<comment> \<open>the message that \<open>chat\<close> appends for the prompt\<close>
  "userMessage userPrompt =
     \<lparr>Role = ''user'', Content = userPrompt, Name = [], ToolCallID = [],
      ToolCalls = [], FunctionCall = None\<rparr>"

definition unsupported :: "ToolCall \<Rightarrow> ChatCompletionMessage" where
  \<comment> \<open>the answer of \<open>chat\<close> to a tool call whose type is not \<open>function\<close>\<close>
  "unsupported toolCall =
     \<lparr>Role = ''tool'',
      Content = ''Error: Tool type '' @ [CHR 0x27] @ tc_Type toolCall @ [CHR 0x27]
                @ '' is not supported by the agent.'',
      Name = fn_Name (tc_Function toolCall),
      ToolCallID = tc_ID toolCall, ToolCalls = [], FunctionCall = None\<rparr>"

definition marker :: "golib \<Rightarrow> string \<Rightarrow> string \<Rightarrow> bool" where
  \<comment> \<open>the text contains the marker, the case of letters ignored\<close>
  "marker L m testOutput = (\<exists>before after. ToLower L testOutput = before @ m @ after)"

definition shellText :: "string \<times> exec_error option \<Rightarrow> string" where
  \<comment> \<open>the text that \<open>runShell\<close> makes of the output and the error of a command\<close>
  "shellText r =
     (case snd r of
        None \<Rightarrow> TrimSpace (fst r)
      | Some e \<Rightarrow> ''Output:'' @ [CHR 0x0A] @ TrimSpace (fst r) @ [CHR 0x0A]
                  @ ''ERROR: '' @ exec_text e)"

subsection \<open>Concrete inputs\<close>

text \<open>A fresh agent, as \<open>NewAgent\<close> makes it, for the project directory \<open>/proj\<close>.\<close>

definition agent0 :: AutonomousCodingAgent where
  "agent0 = \<lparr>projectDir = ''/proj'', ctx = [], maxCtxMessages = 40\<rparr>"

definition files0 :: filesys where
  \<comment> \<open>the project directory, empty\<close>
  "files0 = [(''/proj'', Directory)]"

text \<open>
  A library for the examples.  Its \<open>regexp.Compile\<close> knows the patterns made of ASCII
  letters, digits and spaces: such a pattern matches itself, and the empty pattern matches
  the empty string at every position.  It refuses every other pattern; the examples use
  \<open>a(b\<close>, which Go refuses too.  Its \<open>ToLower\<close> is Go's on ASCII text, and its JSON parser
  knows the texts of the examples.
\<close>

fun Index :: "string \<Rightarrow> string \<Rightarrow> nat option" where
  \<comment> \<open>\<open>strings.Index(s, substr)\<close>, \<open>None\<close> for Go's \<open>-1\<close>\<close>
  "Index [] sub = (if sub = [] then Some 0 else None)"
| "Index (c # cs) sub = (if prefix sub (c # cs) then Some 0 else map_option Suc (Index cs sub))"

definition literalRe :: "string \<Rightarrow> Regexp" where
  "literalRe lit =
     \<lparr>subexpNames = [[]],
      doExecute = (\<lambda>src pos. case Index (drop pos src) lit of
                                None \<Rightarrow> None
                              | Some skip \<Rightarrow> Some (skip, length lit, []))\<rparr>"

definition plainChar :: "char \<Rightarrow> bool" where
  "plainChar c =
     (let n = (of_char c :: nat)
      in (65 \<le> n \<and> n \<le> 90) \<or> (97 \<le> n \<and> n \<le> 122) \<or> (48 \<le> n \<and> n \<le> 57) \<or> n = 32)"

definition quoted :: "string \<Rightarrow> string" where
  \<comment> \<open>the text between double quotes\<close>
  "quoted s = [CHR 0x22] @ s @ [CHR 0x22]"

definition argsReplaceX :: string where
  \<comment> \<open>\<open>{"path": "a.txt", "replace": "X"}\<close>\<close>
  "argsReplaceX =
     ''{'' @ quoted ''path'' @ '': '' @ quoted ''a.txt'' @ '', ''
       @ quoted ''replace'' @ '': '' @ quoted ''X'' @ ''}''"

definition argsReplaceGroup :: string where
  \<comment> \<open>\<open>{"path": "a.txt", "replace": "$1"}\<close>\<close>
  "argsReplaceGroup =
     ''{'' @ quoted ''path'' @ '': '' @ quoted ''a.txt'' @ '', ''
       @ quoted ''replace'' @ '': '' @ quoted ''$1'' @ ''}''"

definition lib0 :: golib where
  "lib0 =
     \<lparr>Compile = (\<lambda>pattern. if list_all plainChar pattern then Some (literalRe pattern) else None),
      IsLetterOrDigit = (\<lambda>r. False),
      ToLower = map asciiLower,
      ParseJSON = (\<lambda>t. if t = argsReplaceX
                          then Some (JObject [(''path'', JString ''a.txt''), (''replace'', JString ''X'')])
                        else if t = argsReplaceGroup
                          then Some (JObject [(''path'', JString ''a.txt''), (''replace'', JString ''$1'')])
                        else if t = ''{}'' then Some (JObject [])
                        else None),
      ErrorText = (\<lambda>e. ''error'')\<rparr>"

definition files1 :: filesys where
  \<comment> \<open>the project directory with the file \<open>a.txt\<close>\<close>
  "files1 = [(''/proj'', Directory), (''/proj/a.txt'', File ''abc'')]"

definition state0 :: State where
  \<comment> \<open>the state at the start of a run\<close>
  "state0 = \<lparr>agent = agent0, world = \<lparr>files = files0, tick = 0\<rparr>, trace = []\<rparr>"

definition assistant :: "string \<Rightarrow> ToolCall list \<Rightarrow> ChatCompletionMessage" where
  \<comment> \<open>a message of the model\<close>
  "assistant content calls =
     \<lparr>Role = ''assistant'', Content = content, Name = [], ToolCallID = [],
      ToolCalls = calls, FunctionCall = None\<rparr>"

definition otherCall :: ToolCall where
  \<comment> \<open>a tool call of a type that the agent does not support\<close>
  "otherCall = \<lparr>tc_ID = ''call_1'', tc_Type = ''retrieval'',
                 tc_Function = \<lparr>fn_Name = [], fn_Arguments = []\<rparr>\<rparr>"

definition listCall :: ToolCall where
  \<comment> \<open>a call of \<open>list_files\<close>\<close>
  "listCall = \<lparr>tc_ID = ''call_2'', tc_Type = ''function'',
                tc_Function = \<lparr>fn_Name = ''list_files'', fn_Arguments = ''{}''\<rparr>\<rparr>"

text \<open>
  Three worlds outside.  In \<open>envBusy\<close> the first response asks for 39 tool calls and every
  later one is the answer \<open>done\<close>.  In \<open>envTools\<close> every response asks for a tool call.  In
  \<open>envFail\<close> every response is the answer \<open>done\<close>, and every command prints \<open>1 failed\<close> and
  exits with status 1.  In \<open>envNoShell\<close> no process can be started.
\<close>

definition envBusy :: env where
  "envBusy =
     \<lparr>CreateChatCompletion = (\<lambda>n msgs. if n = 0 then Inr [assistant [] (replicate 39 otherCall)]
                                        else Inr [assistant ''done'' []]),
      CombinedOutput = (\<lambda>n argv dir fs. (([], None), fs)),
      Run = (\<lambda>n argv dir fs. ((([], []), None), fs))\<rparr>"

definition envTools :: env where
  "envTools =
     \<lparr>CreateChatCompletion = (\<lambda>n msgs. Inr [assistant [] [listCall]]),
      CombinedOutput = (\<lambda>n argv dir fs. (([], None), fs)),
      Run = (\<lambda>n argv dir fs. ((([], []), None), fs))\<rparr>"

definition envFail :: env where
  "envFail =
     \<lparr>CreateChatCompletion = (\<lambda>n msgs. Inr [assistant ''done'' []]),
      CombinedOutput = (\<lambda>n argv dir fs. ((''1 failed'', Some (ExitError ''exit status 1'')), fs)),
      Run = (\<lambda>n argv dir fs. (((''1 failed'', []), Some (ExitError ''exit status 1'')), fs))\<rparr>"

definition envNoShell :: env where
  "envNoShell =
     \<lparr>CreateChatCompletion = (\<lambda>n msgs. Inr [assistant ''done'' []]),
      CombinedOutput = (\<lambda>n argv dir fs. (([], Some (StartError ''exec: no such file'')), fs)),
      Run = (\<lambda>n argv dir fs. ((([], []), Some (StartError ''exec: no such file'')), fs))\<rparr>"




definition agentZug :: Agent_zug where
  \<comment> \<open>the agent of \<open>zug.go\<close>, in the project directory \<open>project\<close>\<close>
  "agentZug = \<lparr>projectDir_zug = ''project'', context_zug = []\<rparr>"

definition worldZug :: World where
  "worldZug = \<lparr>files = [(''project'', Directory), (''project/tests'', Directory)], tick = 0\<rparr>"

section \<open>Properties\<close>

subsection \<open>Paths\<close>

text \<open>The examples of the documentation and of the tests of the Go library.\<close>

lemma Clean_examples:
  "Clean [] = ''.''" "Clean ''abc'' = ''abc''" "Clean ''../../abc'' = ''../../abc''"
  "Clean ''/'' = ''/''" "Clean ''abc/def/'' = ''abc/def''" "Clean ''abc//def//ghi'' = ''abc/def/ghi''"
  "Clean ''abc/./def'' = ''abc/def''" "Clean ''abc/def/../ghi/../jkl'' = ''abc/jkl''"
  "Clean ''abc/def/../..'' = ''.''" "Clean ''/abc/def/../../..'' = ''/''"
  "Clean ''abc/def/../../../ghi/jkl/../../../mno'' = ''../../mno''" "Clean ''/../abc'' = ''/abc''"
  "Clean ''abc/../../././../def'' = ''../../def''"
  by (simp_all add: Clean_def)

lemma Join_Dir_examples:
  "Join ''a'' ''b'' = ''a/b''" "Join ''a'' [] = ''a''" "Join [] ''b'' = ''b''" "Join ''/'' ''a'' = ''/a''"
  "Join ''a/'' ''b'' = ''a/b''" "Join [] [] = []"
  "Dir [] = ''.''" "Dir ''/foo'' = ''/''" "Dir ''x/'' = ''x''" "Dir ''abc'' = ''.''"
  "Dir ''abc/def'' = ''abc''" "Dir ''a/b/c.x'' = ''a/b''"
  by (simp_all add: Join_def Dir_def Clean_def)

lemma NewAgent_proj: "NewAgent ''/proj'' [] = Inr (agent0, files0)"
  by (simp add: NewAgent_def MkdirAll_def Stat_def agent0_def files0_def)

lemma Split_slash_not_Nil: "Split_slash s \<noteq> []"
  by (induction s) (auto split: list.splits)

lemma Split_slash_append:
  "Split_slash (xs @ CHR ''/'' # ys) = Split_slash xs @ Split_slash ys"
proof (induction xs)
  case Nil
  show ?case by simp
next
  case (Cons c xs)
  obtain e es where "Split_slash xs = e # es"
    using Split_slash_not_Nil [of xs] by (cases "Split_slash xs") auto
  with Cons show ?case by simp
qed

lemma Clean_rooted: "IsAbs rel \<Longrightarrow> IsAbs (Clean rel)"
  by (cases rel) (auto simp: IsAbs_def HasPrefix_def Clean_def Let_def)

text \<open>A \<open>..\<close> at the bottom of the stack of \<open>Clean\<close> stays there.\<close>

lemma cleanElems_keeps_dotdot:
  "out \<noteq> [] \<Longrightarrow> last out = ''..'' \<Longrightarrow> \<exists>rest. cleanElems False out es = ''..'' # rest"
proof (induction es arbitrary: out)
  case Nil
  then have "hd (rev out) = ''..''" by (simp add: hd_rev)
  with Nil show ?case by (cases "rev out") auto
next
  case (Cons e es)
  show ?case
  proof (cases "e = ''..'' \<and> hd out \<noteq> ''..''")
    case True
    with Cons.prems have "tl out \<noteq> []" "last (tl out) = ''..''"
      by (cases out; cases "tl out"; auto)+
    from Cons.IH [OF this] True Cons.prems show ?thesis by simp
  next
    case False
    have 1: "\<exists>rest. cleanElems False out es = ''..'' # rest"
      using Cons.IH [OF Cons.prems] .
    have 2: "\<exists>rest. cleanElems False (x # out) es = ''..'' # rest" for x
      using Cons.IH [of "x # out"] Cons.prems by simp
    from False 1 2 show ?thesis by auto
  qed
qed

lemma Join_strings_Cons:
  "Join_strings (e # es) sep = e \<or> (\<exists>r. Join_strings (e # es) sep = e @ sep @ r)"
  by (cases es) auto

lemma leading_dotdot:
  assumes "rel = ''..'' \<or> HasPrefix rel ''../''"
  shows "Clean rel = ''..'' \<or> HasPrefix (Clean rel) ''../''"
proof -
  from assms obtain es where es: "Split_slash rel = ''..'' # es"
    and hd: "hd rel = CHR ''.''" "rel \<noteq> []"
  proof
    assume "rel = ''..''"
    then show ?thesis using that by simp
  next
    assume "HasPrefix rel ''../''"
    then obtain r where "rel = ''..'' @ CHR ''/'' # r"
      by (auto simp: HasPrefix_def prefix_def)
    then have "Split_slash rel = Split_slash ''..'' @ Split_slash r"
      "hd rel = CHR ''.''" "rel \<noteq> []"
      using Split_slash_append [of "''..''" r] by simp_all
    then show ?thesis using that by simp
  qed
  obtain rest where "cleanElems False [] (Split_slash rel) = ''..'' # rest"
    using cleanElems_keeps_dotdot [of "[''..'']" es] es by auto
  then have "Clean rel = Join_strings (''..'' # rest) ''/''"
    using hd by (cases rest) (auto simp: Clean_def Let_def)
  with Join_strings_Cons [of "''..''" rest "''/''"] show ?thesis
    by (auto simp: HasPrefix_def)
qed

lemma absPath_rejects:
  assumes "IsAbs rel \<or> rel = ''..'' \<or> HasPrefix rel ''../''
           \<or> Clean rel = ''..'' \<or> HasPrefix (Clean rel) ''../''"
  shows "absPath a rel = Inl (InvalidPath rel)"
  using assms Clean_rooted [of rel] leading_dotdot [of rel]
  by (auto simp: absPath_def Let_def)

lemmas path_simps =
  absPath_def Clean_def Join_def Dir_def IsAbs_def HasPrefix_def Let_def

lemmas file_simps =
  MkdirAll_def WriteFile_def ReadFile_def openForWrite_def Stat_def

text \<open>
  \<^bold>\<open>C1\<close> (as amended).  A path that is absolute, or that is \<open>..\<close> or begins with \<open>../\<close>,
  as it is written or after normalization, is refused by \<open>absPath\<close> whatever the project
  directory is, and so by each of the four operations that take a path: they return the
  error and leave the files as they are.
\<close>

theorem sandbox_rejects_escapes:
  assumes "IsAbs rel \<or> rel = ''..'' \<or> HasPrefix rel ''../''
           \<or> Clean rel = ''..'' \<or> HasPrefix (Clean rel) ''../''"
  shows "absPath a rel = Inl (InvalidPath rel)
       \<and> createFile a rel content fs = (Inl (InvalidPath rel), fs)
       \<and> appendFile a rel content fs = (Inl (InvalidPath rel), fs)
       \<and> updateFile L a rel find' replace fs = (Inl (InvalidPath rel), fs)
       \<and> readFile a rel fs = Inl (InvalidPath rel)"
  using absPath_rejects [OF assms, of a]
  by (simp add: createFile_def appendFile_def updateFile_def readFile_def)

theorem sandbox_rejects_escapes_witness:
  "absPath agent0 ''a/../../etc/passwd'' = Inl (InvalidPath ''a/../../etc/passwd'')
   \<and> createFile agent0 ''a/../../etc/passwd'' ''x'' files0
       = (Inl (InvalidPath ''a/../../etc/passwd''), files0)
   \<and> readFile agent0 ''a/../../etc/passwd'' files0 = Inl (InvalidPath ''a/../../etc/passwd'')"
proof -
  have "Clean ''a/../../etc/passwd'' = ''../etc/passwd''"
    by (simp add: Clean_def)
  then have "HasPrefix (Clean ''a/../../etc/passwd'') ''../''"
    by (simp add: HasPrefix_def)
  then show ?thesis
    using sandbox_rejects_escapes [of "''a/../../etc/passwd''" agent0 "''x''" files0]
    by simp
qed

text \<open>
  A path may contain a parent-directory element and still be accepted: \<open>a/../b\<close> normalizes
  to \<open>b\<close>, inside the project directory.
\<close>

theorem sandbox_accepts_inner_dotdot:
  "''..'' \<in> set (Split_slash ''a/../b'') \<and> absPath agent0 ''a/../b'' = Inr ''/proj/b''"
  by (simp add: path_simps agent0_def)

text \<open>
  \<^bold>\<open>C2\<close> (as amended).  A path that \<open>absPath\<close> returns is the normalized project directory
  itself or begins with the normalized project directory followed by a separator; in both
  cases the elements of the project directory are the first elements of the path, so a
  sibling such as \<open>root2\<close> is not taken to lie in \<open>root\<close>.
\<close>

theorem absPath_within_root:
  assumes "absPath a rel = Inr full"
  shows "(full = Clean (projectDir a) \<or> HasPrefix full (Clean (projectDir a) @ ''/''))
       \<and> prefix (Split_slash (Clean (projectDir a))) (Split_slash full)"
proof -
  from assms have d:
    "full = Clean (projectDir a) \<or> HasPrefix full (Clean (projectDir a) @ ''/'')"
    by (auto simp: absPath_def Let_def split: if_splits)
  then have "prefix (Split_slash (Clean (projectDir a))) (Split_slash full)"
  proof
    assume "full = Clean (projectDir a)"
    then show ?thesis by simp
  next
    assume "HasPrefix full (Clean (projectDir a) @ ''/'')"
    then obtain r where "full = Clean (projectDir a) @ CHR ''/'' # r"
      by (auto simp: HasPrefix_def prefix_def)
    then show ?thesis
      using Split_slash_append [of "Clean (projectDir a)" r] by simp
  qed
  with d show ?thesis by simp
qed

theorem absPath_within_root_witness:
  "absPath agent0 ''src/main.py'' = Inr ''/proj/src/main.py''
   \<and> HasPrefix ''/proj/src/main.py'' (Clean (projectDir agent0) @ ''/'')
   \<and> prefix (Split_slash (Clean (projectDir agent0))) (Split_slash ''/proj/src/main.py'')"
proof -
  have r: "absPath agent0 ''src/main.py'' = Inr ''/proj/src/main.py''"
    by (simp add: path_simps agent0_def)
  have "Clean (projectDir agent0) = ''/proj''"
    by (simp add: Clean_def agent0_def)
  with r absPath_within_root [OF r] show ?thesis
    by (simp add: HasPrefix_def)
qed

text \<open>
  The project directory is not always a strict ancestor of the path returned: for \<open>.\<close>
  (and for the empty path) \<open>absPath\<close> returns the project directory itself.
\<close>

theorem absPath_returns_root:
  "absPath agent0 ''.'' = Inr ''/proj'' \<and> Clean (projectDir agent0) = ''/proj''
   \<and> \<not> strict_prefix (Split_slash (Clean (projectDir agent0))) (Split_slash ''/proj'')
   \<and> \<not> HasPrefix ''/proj'' (Clean (projectDir agent0) @ ''/'')"
  by (simp add: path_simps agent0_def)

subsection \<open>Creating and reading a file\<close>

lemma Stat_update:
  "Stat (AList.update name n fs) p =
     (if p = ''/'' \<or> p = ''.'' then Some Directory
      else if p = name then Some n else Stat fs p)"
  by (simp add: Stat_def update_conv')

text \<open>The errors for a path that is not there: missing, or below a regular file.\<close>

lemma notFound_examples:
  "ReadFile [(''/proj'', Directory)] ''/proj/a.txt'' = Inl ENOENT"
  "ReadFile [(''/proj'', Directory), (''/proj/a'', File ''x'')] ''/proj/a/b'' = Inl ENOTDIR"
  "ReadFile [(''/proj'', Directory), (''/proj/a'', File ''x'')] ''/proj/a/b/c'' = Inl ENOTDIR"
  "openForWrite [(''/proj'', Directory), (''/proj/a'', File ''x'')] ''/proj/a/b/c'' = Some ENOTDIR"
  "openForWrite [(''/proj'', Directory), (''/proj/a'', File ''x'')] ''/proj/a/b'' = Some ENOTDIR"
  "openForWrite [(''/proj'', Directory)] ''/proj/d/c'' = Some ENOENT"
  "openForWrite [(''/proj'', Directory)] ''/proj/c'' = None"
  by (simp_all add: ReadFile_def openForWrite_def notFound_def Stat_def Dir_def Clean_def)

text \<open>
  \<^bold>\<open>C9\<close> (as amended).  When \<open>createFile(p, c)\<close> succeeds, \<open>readFile(p)\<close> on the files it
  leaves returns exactly \<open>c\<close>.
\<close>

theorem createFile_then_readFile:
  assumes "createFile a p c fs = (Inr msg, fs')"
  shows "readFile a p fs' = Inr c"
proof -
  from assms obtain full fs1 where full: "absPath a p = Inr full"
    and w: "WriteFile fs1 full c = Inr fs'"
    by (auto simp: createFile_def split: sum.splits)
  from w have o: "openForWrite fs1 full = None"
    and fs': "fs' = AList.update full (File c) fs1"
    by (auto simp: WriteFile_def split: option.splits)
  from o have "full \<noteq> ''/''" "full \<noteq> ''.''"
    by (auto simp: openForWrite_def Stat_def split: option.splits node.splits if_splits)
  then have "ReadFile fs' full = Inr c"
    by (simp add: ReadFile_def fs' Stat_update)
  with full show ?thesis by (simp add: readFile_def)
qed

theorem createFile_then_readFile_witness:
  "createFile agent0 ''d/a.txt'' ''X'' files0
     = (Inr ''file d/a.txt created'',
        [(''/proj'', Directory), (''/proj/d'', Directory), (''/proj/d/a.txt'', File ''X'')])
   \<and> readFile agent0 ''d/a.txt''
        [(''/proj'', Directory), (''/proj/d'', Directory), (''/proj/d/a.txt'', File ''X'')]
     = Inr ''X''"
proof -
  have c: "createFile agent0 ''d/a.txt'' ''X'' files0
     = (Inr ''file d/a.txt created'',
        [(''/proj'', Directory), (''/proj/d'', Directory), (''/proj/d/a.txt'', File ''X'')])"
    by (simp add: createFile_def path_simps file_simps agent0_def files0_def)
  from c createFile_then_readFile [OF c] show ?thesis by simp
qed

text \<open>
  \<open>createFile\<close> can fail on a path that the sandbox accepts, and then \<open>readFile\<close> does not
  return the content: the path \<open>.\<close> is the project directory, which is not a regular file.
\<close>

theorem createFile_on_root_fails:
  "absPath agent0 ''.'' = Inr ''/proj''
   \<and> createFile agent0 ''.'' ''X'' files0 = (Inl (WriteFailed ''.'' EISDIR), files0)
   \<and> readFile agent0 ''.'' files0 = Inl (ReadFailed ''.'' EISDIR)"
  by (simp add: createFile_def readFile_def path_simps file_simps agent0_def files0_def)

subsection \<open>Search and replace\<close>

lemma DecodeRuneInString_pos: "s \<noteq> [] \<Longrightarrow> 0 < snd (DecodeRuneInString s)"
  by (cases s) (simp_all add: DecodeRuneInString_def Let_def)

lemma DecodeRuneInString_le: "snd (DecodeRuneInString s) \<le> length s"
proof (cases s)
  case Nil
  then show ?thesis by (simp add: DecodeRuneInString_def)
next
  case (Cons c0 t)
  have 1: "(1::nat) \<le> length s" using Cons by simp
  have "snd (DecodeRuneInString s) = 1
        \<or> (snd (DecodeRuneInString s) = 2 \<and> \<not> length s < 2)
        \<or> (snd (DecodeRuneInString s) = 3 \<and> \<not> length s < 3)
        \<or> (snd (DecodeRuneInString s) = 4 \<and> \<not> length s < 4)"
    unfolding DecodeRuneInString_def Cons list.case Let_def
    by (simp split: if_split)
  with 1 show ?thesis by auto
qed

lemma ReplaceAllString_no_match:
  "doExecute re src 0 = None \<Longrightarrow> ReplaceAllString f re src repl = src"
  unfolding ReplaceAllString_def by (subst replaceAll.simps) simp

lemma replaceEach_absent: "\<not> sublist old s \<Longrightarrow> replaceEach s old new = s"
proof (induction s old new rule: replaceEach.induct)
  case (1 s old new)
  show ?case
  proof (cases "old = [] \<or> s = []")
    case True
    then show ?thesis by (subst replaceEach.simps) simp
  next
    case False
    from "1.prems" have np: "\<not> prefix old s"
      by (auto simp: sublist_def prefix_def)
    from "1.prems" False have "\<not> sublist old (tl s)"
      by (cases s) (auto simp: sublist_Cons_right)
    with "1.IH"(2) False np have "replaceEach (tl s) old new = tl s" by simp
    with False np show ?thesis by (subst replaceEach.simps) simp
  qed
qed

lemma ReplaceAll_absent: "\<not> Contains s old \<Longrightarrow> ReplaceAll s old new = s"
  by (cases "old = []") (auto simp: ReplaceAll_def Contains_def replaceEach_absent)

text \<open>
  \<^bold>\<open>C3\<close>.  For a file that exists in the sandbox, with the content \<open>src\<close>, let \<open>dst\<close> be
  the result of the replacement: of the pattern that \<open>find\<close> compiles to, or of the text
  \<open>find\<close> when it does not compile.  When the pattern (if \<open>find\<close> compiles) has no match in
  the content and \<open>find\<close> does not occur in the content, \<open>updateFile\<close> returns the
  descriptor \<open>nothing replaced in ...\<close>, which is a result and not an error and differs from
  the descriptor \<open>updated ...\<close> of a success, and the files are as before.  The same holds
  whenever \<open>dst\<close> is \<open>src\<close>: nothing is written.  When \<open>dst\<close> differs from \<open>src\<close>, the
  file is written with \<open>dst\<close> and nothing else changes, or the write fails, which is an
  error and leaves the files as they are.  So \<open>updateFile\<close> changes the files only when the
  replacement changed the content, and the change is the write of \<open>dst\<close> to that file.
\<close>

theorem updateFile_without_match:
  assumes "absPath a path = Inr full" and "ReadFile fs full = Inr src"
  shows "let dst = (case Compile L find' of
                      Some re \<Rightarrow> ReplaceAllString (IsLetterOrDigit L) re src replace
                    | None \<Rightarrow> ReplaceAll src find' replace);
             noop = ''nothing replaced in '' @ path
                      @ '' (content was identical or find pattern did not match)''
         in ((\<forall>re. Compile L find' = Some re \<longrightarrow> doExecute re src 0 = None)
               \<and> \<not> Contains src find'
               \<longrightarrow> updateFile L a path find' replace fs = (Inr noop, fs))
          \<and> noop \<noteq> ''updated '' @ path
          \<and> (dst = src \<longrightarrow> updateFile L a path find' replace fs = (Inr noop, fs))
          \<and> (dst \<noteq> src
               \<longrightarrow> updateFile L a path find' replace fs
                     = (Inr (''updated '' @ path), AList.update full (File dst) fs)
                   \<or> (\<exists>e. updateFile L a path find' replace fs
                              = (Inl (WriteUpdatedFailed path e), fs)))
          \<and> (snd (updateFile L a path find' replace fs) \<noteq> fs
               \<longrightarrow> dst \<noteq> src
                   \<and> updateFile L a path find' replace fs
                       = (Inr (''updated '' @ path), AList.update full (File dst) fs))"
proof -
  define dst where "dst = (case Compile L find' of
                            Some re \<Rightarrow> ReplaceAllString (IsLetterOrDigit L) re src replace
                          | None \<Rightarrow> ReplaceAll src find' replace)"
  define noop where "noop = ''nothing replaced in '' @ path
                      @ '' (content was identical or find pattern did not match)''"
  have u: "updateFile L a path find' replace fs =
      (if dst = src then (Inr noop, fs)
       else (case WriteFile fs full dst of
               Inl e \<Rightarrow> (Inl (WriteUpdatedFailed path e), fs)
             | Inr fs' \<Rightarrow> (Inr (''updated '' @ path), fs')))"
    using assms by (simp add: updateFile_def dst_def noop_def Let_def)
  have w: "fs' = AList.update full (File dst) fs" if "WriteFile fs full dst = Inr fs'" for fs'
    using that by (auto simp: WriteFile_def split: option.splits)
  have 1: "updateFile L a path find' replace fs = (Inr noop, fs)"
    if "\<forall>re. Compile L find' = Some re \<longrightarrow> doExecute re src 0 = None" "\<not> Contains src find'"
  proof -
    from that have "dst = src"
      by (auto simp: dst_def ReplaceAllString_no_match ReplaceAll_absent split: option.splits)
    with u show ?thesis by simp
  qed
  have 2: "noop \<noteq> ''updated '' @ path"
    by (simp add: noop_def)
  have 3: "updateFile L a path find' replace fs = (Inr noop, fs)" if "dst = src"
    using that u by simp
  have 4: "updateFile L a path find' replace fs
             = (Inr (''updated '' @ path), AList.update full (File dst) fs)
           \<or> (\<exists>e. updateFile L a path find' replace fs = (Inl (WriteUpdatedFailed path e), fs))"
    if "dst \<noteq> src"
    using that u w by (cases "WriteFile fs full dst") auto
  have 5: "dst \<noteq> src \<and> updateFile L a path find' replace fs
                      = (Inr (''updated '' @ path), AList.update full (File dst) fs)"
    if "snd (updateFile L a path find' replace fs) \<noteq> fs"
  proof -
    from that u have ne: "dst \<noteq> src" by (auto split: if_splits)
    with that u obtain fs' where "WriteFile fs full dst = Inr fs'"
      by (cases "WriteFile fs full dst") auto
    with w [of fs'] u ne show ?thesis by simp
  qed
  from 1 2 3 4 5 show ?thesis
    unfolding Let_def dst_def [symmetric] noop_def [symmetric] by blast
qed

lemma length_afterEachRune: "length s \<le> length (afterEachRune e s)"
proof (induction e s rule: afterEachRune.induct)
  case (1 new s)
  show ?case
  proof (cases "s = []")
    case True
    then show ?thesis by (subst afterEachRune.simps) simp
  next
    case False
    with 1 have "length (drop (snd (DecodeRuneInString s)) s)
        \<le> length (afterEachRune new (drop (snd (DecodeRuneInString s)) s))"
      by simp
    with False show ?thesis
      by (subst afterEachRune.simps) (simp add: Let_def)
  qed
qed

lemma replaceAll_empty_pattern:
  assumes m: "\<forall>pos \<le> length src. doExecute re src pos = Some (0, 0, [])"
    and e: "\<forall>pos. expand f re repl src [Some (pos, pos)] = e"
  shows "pos \<le> length src \<Longrightarrow> lme \<le> pos \<Longrightarrow> lme < pos \<or> pos = 0 \<Longrightarrow>
         replaceAll f re src repl lme pos buf
           = buf @ slice src lme pos @ e @ afterEachRune e (drop pos src)"
proof (induction "length src - pos" arbitrary: lme pos buf rule: less_induct)
  case less
  let ?w = "snd (DecodeRuneInString (drop pos src))"
  from m less.prems have ex: "doExecute re src pos = Some (0, 0, [])" by simp
  show ?case
  proof (cases "pos < length src")
    case True
    then have w: "0 < ?w" "pos + ?w \<le> length src"
      using DecodeRuneInString_pos [of "drop pos src"] DecodeRuneInString_le [of "drop pos src"]
      by auto
    have IH: "replaceAll f re src repl pos (pos + ?w) (buf @ slice src lme pos @ e)
         = (buf @ slice src lme pos @ e) @ slice src pos (pos + ?w) @ e
             @ afterEachRune e (drop (pos + ?w) src)"
      using less.hyps [of "pos + ?w" pos] w True by simp
    have a: "afterEachRune e (drop pos src)
        = take ?w (drop pos src) @ e @ afterEachRune e (drop (pos + ?w) src)"
      using True by (subst afterEachRune.simps) (simp add: Let_def add.commute)
    have "replaceAll f re src repl lme pos buf
        = replaceAll f re src repl pos (pos + ?w) (buf @ slice src lme pos @ e)"
      using less.prems ex e w by (subst replaceAll.simps) (auto simp: Let_def)
    with IH a show ?thesis by (simp add: slice_def)
  next
    case False
    with less.prems have p: "pos = length src" by simp
    have "replaceAll f re src repl lme pos buf
        = replaceAll f re src repl pos (Suc pos) (buf @ slice src lme pos @ e)"
      using less.prems ex e p
      by (subst replaceAll.simps) (auto simp: Let_def DecodeRuneInString_def)
    also have "\<dots> = buf @ slice src lme pos @ e"
      using p by (subst replaceAll.simps) simp
    finally show ?thesis using p by (simp add: afterEachRune.simps)
  qed
qed

lemma expand_no_dollar: "CHR ''$'' \<notin> set t \<Longrightarrow> expand f re t src m = t"
proof -
  assume "CHR ''$'' \<notin> set t"
  then have "dropWhile (\<lambda>c. c \<noteq> CHR ''$'') t = []" by (auto simp: dropWhile_eq_Nil_conv)
  then show ?thesis by (subst expand.simps) (simp add: Let_def)
qed

lemma namedGroup_single:
  "namedGroup name names [Some (pos, pos)] = None
   \<or> namedGroup name names [Some (pos, pos)] = Some (pos, pos)"
  by (cases names) auto

lemma expand_empty_match:
  "expand f re t src [Some (pos, pos)] = expand f re t src [Some (0, 0)]"
proof (induction "length t" arbitrary: t rule: less_induct)
  case less
  define found where "found = dropWhile (\<lambda>c. c \<noteq> CHR ''$'') t"
  have fl: "length found \<le> length t"
    unfolding found_def by (rule length_dropWhile_le)
  show ?case
  proof (cases "found = []")
    case True
    then show ?thesis
      by (subst (1 2) expand.simps) (simp add: Let_def found_def)
  next
    case False
    define after where "after = tl found"
    from False have al: "length after < length found"
      by (simp add: after_def length_tl)
    have IH: "expand f re u src [Some (pos, pos)] = expand f re u src [Some (0, 0)]"
      if "length u \<le> length after" for u
      using less [of u] that al fl by simp
    have nogroup: "(case (case num of
                        Some k \<Rightarrow> (if k < length [Some (q, q)] then [Some (q, q)] ! k else None)
                      | None \<Rightarrow> namedGroup name (subexpNames re) [Some (q, q)]) of
                  None \<Rightarrow> [] | Some (lo, hi) \<Rightarrow> slice src lo hi) = []" for num name and q :: nat
      using namedGroup_single [of name "subexpNames re" q]
      by (auto simp: slice_def split: option.splits)
    show ?thesis
      apply (subst (1 2) expand.simps)
      apply (simp only: Let_def found_def [symmetric] after_def [symmetric] nogroup)
      using False IH [of "tl after"] IH [of after] IH
      apply (auto split: option.splits simp: length_tl)
      done
  qed
qed

lemma fold_absent_key:
  "\<forall>(k, v) \<in> set kvs. fieldOf names k \<noteq> Some f \<Longrightarrow>
   fold (\<lambda>(k, v) acc. if fieldOf names k = Some f
                        then (case v of JString str \<Rightarrow> str | _ \<Rightarrow> acc) else acc) kvs acc = acc"
  by (induction kvs arbitrary: acc) auto

lemma absent_key_decodes_empty:
  "\<forall>(k, v) \<in> set kvs. fieldOf names k \<noteq> Some f \<Longrightarrow> structField names kvs f = []"
  unfolding structField_def by (rule fold_absent_key)

lemma ReplaceAllString_empty_pattern:
  assumes "\<forall>pos \<le> length src. doExecute re src pos = Some (0, 0, [])"
  shows "ReplaceAllString f re src repl
         = expand f re repl src [Some (0, 0)]
           @ afterEachRune (expand f re repl src [Some (0, 0)]) src"
  unfolding ReplaceAllString_def
  using replaceAll_empty_pattern [OF assms, of f repl "expand f re repl src [Some (0, 0)]" 0 0 "[]"]
    expand_empty_match [of f re repl src]
  by (simp add: slice_def)

lemma parse_argsReplaceX:
  "ParseJSON lib0 argsReplaceX
     = Some (JObject [(''path'', JString ''a.txt''), (''replace'', JString ''X'')])"
  by (simp add: lib0_def)

lemma parse_argsReplaceGroup:
  "ParseJSON lib0 argsReplaceGroup
     = Some (JObject [(''path'', JString ''a.txt''), (''replace'', JString ''$1'')])"
  by (simp add: lib0_def argsReplaceGroup_def argsReplaceX_def quoted_def)

lemma fieldOf_update_file:
  "fieldOf [''path'', ''find'', ''replace''] ''path'' = Some ''path''"
  "fieldOf [''path'', ''find'', ''replace''] ''replace'' = Some ''replace''"
  by (simp_all add: fieldOf_def asciiLower_def)

lemma TrimSpace_a_txt: "TrimSpace ''a.txt'' = ''a.txt''"
  by (simp add: TrimSpace_def whiteSpace_def trimLeft.simps)

lemma absPath_a_txt: "absPath agent0 ''a.txt'' = Inr ''/proj/a.txt''"
  by (simp add: path_simps agent0_def)

lemma Index_Nil: "Index s [] = Some 0"
  by (cases s) simp_all

lemma literalRe_Nil: "doExecute (literalRe []) src pos = Some (0, 0, [])"
  by (simp add: literalRe_def Index_Nil)

lemma Compile_lib0_Nil: "Compile lib0 [] = Some (literalRe [])"
  by (simp add: lib0_def)

lemma expand_group1: "expand f re ''$1'' src [Some (0, 0)] = []"
  by (simp add: expand.simps regexp_extract_def nameLen.simps DecodeRuneInString_def
      isNameRune_def Let_def)

lemma afterEachRune_abc: "afterEachRune ''X'' ''abc'' = ''aXbXcX''"
  by (simp add: afterEachRune.simps DecodeRuneInString_def Let_def)

lemma afterEachRune_Nil: "afterEachRune [] s = s"
proof (induction "[] :: string" s rule: afterEachRune.induct)
  case (1 s)
  show ?case
  proof (cases "s = []")
    case True
    then show ?thesis by (subst afterEachRune.simps) simp
  next
    case False
    with 1 show ?thesis by (subst afterEachRune.simps) (simp add: Let_def)
  qed
qed

lemma Compile_lib0_plain: "Compile lib0 ''xyz'' = Some (literalRe ''xyz'')"
  "Compile lib0 ''b'' = Some (literalRe ''b'')"
  by (simp_all add: lib0_def plainChar_def)

lemma ReadFile_a_txt: "ReadFile files1 ''/proj/a.txt'' = Inr ''abc''"
  by (simp add: ReadFile_def Stat_def files1_def)

theorem updateFile_without_match_witness:
  "updateFile lib0 agent0 ''a.txt'' ''xyz'' ''Q'' files1
     = (Inr ''nothing replaced in a.txt (content was identical or find pattern did not match)'',
        files1)
   \<and> updateFile lib0 agent0 ''a.txt'' ''b'' ''b'' files1
     = (Inr ''nothing replaced in a.txt (content was identical or find pattern did not match)'',
        files1)
   \<and> updateFile lib0 agent0 ''a.txt'' ''b'' ''Q'' files1
     = (Inr ''updated a.txt'', [(''/proj'', Directory), (''/proj/a.txt'', File ''aQc'')])"
proof -
  have n: "\<forall>re. Compile lib0 ''xyz'' = Some re \<longrightarrow> doExecute re ''abc'' 0 = None"
    by (simp add: Compile_lib0_plain literalRe_def)
  have c: "\<not> Contains ''abc'' ''xyz''"
    by (simp add: Contains_def sublist_code)
  have r: "ReplaceAllString (IsLetterOrDigit lib0) (literalRe ''b'') ''abc'' ''Q'' = ''aQc''"
    "ReplaceAllString (IsLetterOrDigit lib0) (literalRe ''b'') ''abc'' ''b'' = ''abc''"
    by (simp_all add: ReplaceAllString_def replaceAll.simps literalRe_def slice_def
        expand_no_dollar DecodeRuneInString_def Let_def)
  have w: "WriteFile files1 ''/proj/a.txt'' ''aQc''
           = Inr (AList.update ''/proj/a.txt'' (File ''aQc'') files1)"
    by (simp add: WriteFile_def openForWrite_def Stat_def Dir_def Clean_def files1_def)
  have u: "snd (updateFile lib0 agent0 ''a.txt'' ''b'' ''Q'' files1) \<noteq> files1"
    by (simp add: updateFile_def absPath_a_txt ReadFile_a_txt Compile_lib0_plain r w)
      (simp add: files1_def)
  have "updateFile lib0 agent0 ''a.txt'' ''xyz'' ''Q'' files1
     = (Inr ''nothing replaced in a.txt (content was identical or find pattern did not match)'',
        files1)"
    using n c updateFile_without_match [OF absPath_a_txt ReadFile_a_txt,
        where L = lib0 and find' = "''xyz''" and replace = "''Q''"]
    by (simp add: Let_def)
  moreover have "updateFile lib0 agent0 ''a.txt'' ''b'' ''b'' files1
     = (Inr ''nothing replaced in a.txt (content was identical or find pattern did not match)'',
        files1)"
    using updateFile_without_match [OF absPath_a_txt ReadFile_a_txt,
        where L = lib0 and find' = "''b''" and replace = "''b''"]
    by (simp add: Let_def Compile_lib0_plain r)
  moreover have "updateFile lib0 agent0 ''a.txt'' ''b'' ''Q'' files1
     = (Inr ''updated a.txt'', AList.update ''/proj/a.txt'' (File ''aQc'') files1)"
    using u updateFile_without_match [OF absPath_a_txt ReadFile_a_txt,
        where L = lib0 and find' = "''b''" and replace = "''Q''"]
    by (simp add: Let_def Compile_lib0_plain r)
  ultimately show ?thesis
    by (simp add: files1_def)
qed

text \<open>
  An empty \<open>find\<close>.  \<open>execTool\<close> does not refuse it, and \<open>find\<close> is empty when the arguments
  have no such key.  When the empty pattern compiles and matches the empty string at every
  position, as it does in Go, then for a file with content and a \<open>replace\<close> whose expansion as
  a template is not empty (such is every \<open>replace\<close> that is not empty and has no dollar
  sign, being its own expansion), the file gets the expansion before its first rune and
  after each of its runes.
\<close>

lemma empty_find_inserts:
  assumes parse: "ParseJSON L jsonArgs = Some (JObject kvs)"
    and typed: "\<forall>(k, v) \<in> set kvs.
                  fieldOf [''path'', ''find'', ''replace''] k \<noteq> None \<longrightarrow> isStringOrNull v"
    and find: "(\<forall>(k, v) \<in> set kvs. fieldOf [''path'', ''find'', ''replace''] k \<noteq> Some ''find'')
               \<or> structField [''path'', ''find'', ''replace''] kvs ''find'' = []"
    and path: "path = structField [''path'', ''find'', ''replace''] kvs ''path''"
      "TrimSpace path \<noteq> []" "absPath a path = Inr full"
    and exists: "ReadFile (files w) full = Inr src" "Stat (files w) (Dir full) = Some Directory"
    and re: "Compile L [] = Some re" "\<forall>pos \<le> length src. doExecute re src pos = Some (0, 0, [])"
    and e: "e = expand (IsLetterOrDigit L) re
                  (structField [''path'', ''find'', ''replace''] kvs ''replace'') src [Some (0, 0)]"
    and nonempty: "src \<noteq> []" "e \<noteq> []"
  shows "execTool L E a ''update_file'' jsonArgs w
           = (Inr (''updated '' @ path),
              w\<lparr>files := AList.update full (File (e @ afterEachRune e src)) (files w)\<rparr>)
       \<and> e @ afterEachRune e src \<noteq> src
       \<and> e @ afterEachRune e src \<noteq> e
       \<and> (CHR ''$'' \<notin> set (structField [''path'', ''find'', ''replace''] kvs ''replace'')
            \<longrightarrow> e = structField [''path'', ''find'', ''replace''] kvs ''replace'')"
proof -
  let ?names = "[''path'', ''find'', ''replace'']"
  have f: "structField ?names kvs ''find'' = []"
    using find absent_key_decodes_empty [of kvs ?names "''find''"] by blast
  have u: "unmarshalStruct ?names (ParseJSON L jsonArgs) = Some (structField ?names kvs)"
    using parse typed by (simp add: unmarshalStruct_def)
  have len: "length src \<le> length (afterEachRune e src)"
    by (rule length_afterEachRune)
  have ne: "e @ afterEachRune e src \<noteq> src" "e @ afterEachRune e src \<noteq> e"
  proof -
    have "length (e @ afterEachRune e src) = length e + length (afterEachRune e src)"
      by simp
    moreover have "0 < length e" "0 < length src"
      using nonempty by simp_all
    ultimately have "length src < length (e @ afterEachRune e src)"
      "length e < length (e @ afterEachRune e src)"
      using len by linarith+
    then show "e @ afterEachRune e src \<noteq> src" "e @ afterEachRune e src \<noteq> e"
      by (metis less_irrefl)+
  qed
  have dst: "ReplaceAllString (IsLetterOrDigit L) re src (structField ?names kvs ''replace'')
             = e @ afterEachRune e src"
    unfolding e by (rule ReplaceAllString_empty_pattern [OF re(2)])
  from exists(1) have st: "Stat (files w) full = Some (File src)"
    by (auto simp: ReadFile_def split: option.splits node.splits)
  have wr: "WriteFile (files w) full (e @ afterEachRune e src)
            = Inr (AList.update full (File (e @ afterEachRune e src)) (files w))"
    using st exists(2) by (simp add: WriteFile_def openForWrite_def)
  have "updateFile L a path [] (structField ?names kvs ''replace'') (files w)
        = (Inr (''updated '' @ path), AList.update full (File (e @ afterEachRune e src)) (files w))"
    using path(3) exists(1) re(1) dst ne wr by (simp add: updateFile_def Let_def)
  then have "execTool L E a ''update_file'' jsonArgs w
           = (Inr (''updated '' @ path),
              w\<lparr>files := AList.update full (File (e @ afterEachRune e src)) (files w)\<rparr>)"
    using u f path(1,2) by (simp add: execTool_def onFiles_def)
  moreover have "e = structField ?names kvs ''replace''"
    if "CHR ''$'' \<notin> set (structField ?names kvs ''replace'')"
    unfolding e using that by (rule expand_no_dollar)
  ultimately show ?thesis using ne by simp
qed

lemma empty_find_inserts_abc:
  "execTool lib0 envTools agent0 ''update_file'' argsReplaceX \<lparr>files = files1, tick = 0\<rparr>
     = (Inr ''updated a.txt'',
        \<lparr>files = [(''/proj'', Directory), (''/proj/a.txt'', File ''XaXbXcX'')], tick = 0\<rparr>)"
proof -
  let ?names = "[''path'', ''find'', ''replace'']"
  let ?kvs = "[(''path'', JString ''a.txt''), (''replace'', JString ''X'')]"
  have sf: "structField ?names ?kvs ''path'' = ''a.txt''"
    "structField ?names ?kvs ''replace'' = ''X''"
    by (simp_all add: structField_def fieldOf_update_file)
  have e: "expand (IsLetterOrDigit lib0) (literalRe []) ''X'' ''abc'' [Some (0, 0)] = ''X''"
    by (simp add: expand_no_dollar)
  have "execTool lib0 envTools agent0 ''update_file'' argsReplaceX \<lparr>files = files1, tick = 0\<rparr>
      = (Inr (''updated '' @ ''a.txt''),
         \<lparr>files = files1, tick = 0\<rparr>
           \<lparr>files := AList.update ''/proj/a.txt'' (File (''X'' @ afterEachRune ''X'' ''abc''))
                       (files \<lparr>files = files1, tick = 0\<rparr>)\<rparr>)"
    using empty_find_inserts [of lib0 argsReplaceX ?kvs "''a.txt''" agent0 "''/proj/a.txt''"
        "\<lparr>files = files1, tick = 0\<rparr>" "''abc''" "literalRe []" "''X''" envTools]
    by (simp add: parse_argsReplaceX fieldOf_update_file isStringOrNull_def sf TrimSpace_a_txt
        absPath_a_txt literalRe_Nil Compile_lib0_Nil e
        ReadFile_def Stat_def files1_def Dir_def Clean_def)
  then show ?thesis
    by (simp add: afterEachRune_abc files1_def)
qed

text \<open>
  \<^bold>\<open>C10\<close>.  The call of \<open>update_file\<close> with the arguments \<open>{"path": "a.txt", "replace": "$1"}\<close>,
  in a project whose file \<open>a.txt\<close> holds \<open>abc\<close>.  There is no \<open>find\<close>, so the pattern is empty;
  it matches at every position, and \<open>replace\<close> is not empty.  Yet nothing is inserted:
  \<open>ReplaceAllString\<close> reads \<open>$1\<close> as the name of a group, the empty pattern has no group,
  and the expansion is the empty string.  The file is not written and the result is
  \<open>nothing replaced\<close>.  The replacement of plain text, which \<open>updateFile\<close> makes when \<open>find\<close>
  does not compile, writes \<open>$1\<close> as it stands at every position.
\<close>

theorem update_file_empty_find_noop:
  "execTool lib0 envTools agent0 ''update_file'' argsReplaceGroup \<lparr>files = files1, tick = 0\<rparr>
     = (Inr ''nothing replaced in a.txt (content was identical or find pattern did not match)'',
        \<lparr>files = files1, tick = 0\<rparr>)
   \<and> readFile agent0 ''a.txt'' files1 = Inr ''abc''
   \<and> ReplaceAll ''abc'' [] ''$1'' = ''$1a$1b$1c$1''"
proof -
  let ?names = "[''path'', ''find'', ''replace'']"
  let ?kvs = "[(''path'', JString ''a.txt''), (''replace'', JString ''$1'')]"
  have sf: "structField ?names ?kvs ''path'' = ''a.txt''"
    "structField ?names ?kvs ''replace'' = ''$1''"
    "structField ?names ?kvs ''find'' = []"
    by (simp_all add: structField_def fieldOf_update_file fieldOf_def asciiLower_def)
  have u: "unmarshalStruct ?names (ParseJSON lib0 argsReplaceGroup) = Some (structField ?names ?kvs)"
    by (simp add: parse_argsReplaceGroup unmarshalStruct_def isStringOrNull_def)
  have r: "ReplaceAllString (IsLetterOrDigit lib0) (literalRe []) ''abc'' ''$1'' = ''abc''"
    using ReplaceAllString_empty_pattern [of "''abc''" "literalRe []" "IsLetterOrDigit lib0" "''$1''"]
    by (simp add: literalRe_Nil expand_group1 afterEachRune_Nil)
  have "updateFile lib0 agent0 ''a.txt'' [] ''$1'' files1
      = (Inr ''nothing replaced in a.txt (content was identical or find pattern did not match)'', files1)"
    by (simp add: updateFile_def absPath_a_txt Compile_lib0_Nil r ReadFile_def Stat_def files1_def)
  then have "execTool lib0 envTools agent0 ''update_file'' argsReplaceGroup
               \<lparr>files = files1, tick = 0\<rparr>
     = (Inr ''nothing replaced in a.txt (content was identical or find pattern did not match)'',
        \<lparr>files = files1, tick = 0\<rparr>)"
    by (simp add: execTool_def u sf TrimSpace_a_txt onFiles_def)
  moreover have "readFile agent0 ''a.txt'' files1 = Inr ''abc''"
    by (simp add: readFile_def absPath_a_txt ReadFile_a_txt)
  moreover have "ReplaceAll ''abc'' [] ''$1'' = ''$1a$1b$1c$1''"
    by (simp add: ReplaceAll_def afterEachRune.simps DecodeRuneInString_def Let_def)
  ultimately show ?thesis by simp
qed

subsection \<open>The conversation\<close>

lemma requests_append: "requests (tr1 @ tr2) = requests tr1 @ requests tr2"
  by (induction tr1 rule: requests.induct) auto

lemma appended_append: "appended (tr1 @ tr2) = appended tr1 @ appended tr2"
  by (induction tr1 rule: appended.induct) auto

lemma requests_Appended: "requests (map Appended ms) = []"
  by (induction ms) auto

lemma appended_Appended: "appended (map Appended ms) = ms"
  by (induction ms) auto

lemma windowed_append:
  "windowed n log (tr1 @ tr2) = (windowed n log tr1 \<and> windowed n (log @ appended tr1) tr2)"
  by (induction n log tr1 rule: windowed.induct) auto

lemma windowed_Appended: "windowed n log (map Appended ms)"
  by (induction ms arbitrary: log) auto

lemma lastN_short: "length xs \<le> n \<Longrightarrow> lastN n xs = xs"
  by (simp add: lastN_def)

lemma lastN_lastN: "lastN n (lastN n xs) = lastN n xs"
  by (simp add: lastN_def)

lemma lastN_append: "lastN n (lastN n xs @ ys) = lastN n (xs @ ys)"
proof (cases "length xs \<le> n")
  case True
  then show ?thesis by (simp add: lastN_def)
next
  case False
  then have l: "length (drop (length xs - n) xs) = n" by simp
  show ?thesis
  proof (cases "length ys \<le> n")
    case True
    with False have "length xs - n + length ys = length xs + length ys - n" by simp
    with False True l show ?thesis by (simp add: lastN_def add.commute)
  next
    case ys: False
    with False l show ?thesis by (simp add: lastN_def)
  qed
qed



lemma toolResponse_state:
  "toolResponse L E tc st = (m, st') \<Longrightarrow>
   agent st' = agent st \<and> trace st' = trace st \<and> Role m = ''tool''"
  by (auto simp: toolResponse_def Let_def split: if_splits prod.splits)

lemma toolCalls_appends:
  "toolCalls L E tcs mfa st = (mfa', st') \<Longrightarrow>
   \<exists>ms. length ms = length tcs \<and> (\<forall>m \<in> set ms. Role m = ''tool'')
        \<and> mfa' = mfa @ ms
        \<and> agent st' = (agent st)\<lparr>ctx := ctx (agent st) @ ms\<rparr>
        \<and> trace st' = trace st @ map Appended ms"
proof (induction tcs arbitrary: mfa st)
  case Nil
  then show ?case by simp
next
  case (Cons tc tcs)
  obtain m st1 where r: "toolResponse L E tc st = (m, st1)"
    by (cases "toolResponse L E tc st")
  with Cons.prems have "toolCalls L E tcs (mfa @ [m]) (appendCtx m st1) = (mfa', st')"
    by simp
  from Cons.IH [OF this] obtain ms where ms: "length ms = length tcs"
    "\<forall>m \<in> set ms. Role m = ''tool''" "mfa' = (mfa @ [m]) @ ms"
    "agent st' = (agent (appendCtx m st1))\<lparr>ctx := ctx (agent (appendCtx m st1)) @ ms\<rparr>"
    "trace st' = trace (appendCtx m st1) @ map Appended ms"
    by blast
  from toolResponse_state [OF r] ms show ?case
    by (intro exI [of _ "m # ms"]) (simp add: appendCtx_def)
qed

lemma chatLoop_end: "\<not> step < 10 \<Longrightarrow> chatLoop L E step mfa st = (Inl TooManyToolInvocations, st)"
  by (subst chatLoop.simps) simp

lemma chatLoop_error:
  "step < 10 \<Longrightarrow> CreateChatCompletion E (tick (world st)) mfa = Inl err \<Longrightarrow>
   chatLoop L E step mfa st = (Inl (CompletionFailed (step + 1) err), sent mfa st)"
  by (subst chatLoop.simps) (simp add: sent_def)

lemma chatLoop_empty:
  "step < 10 \<Longrightarrow> CreateChatCompletion E (tick (world st)) mfa = Inr [] \<Longrightarrow>
   chatLoop L E step mfa st = (Inl EmptyChoices, sent mfa st)"
  by (subst chatLoop.simps) (simp add: sent_def)

lemma chatLoop_answer:
  "step < 10 \<Longrightarrow> CreateChatCompletion E (tick (world st)) mfa = Inr (msg # others) \<Longrightarrow>
   ToolCalls msg = [] \<Longrightarrow>
   chatLoop L E step mfa st
     = (if Content msg = [] then Inl NoContentNoToolCalls else Inr (Content msg),
        appendCtx msg (sent mfa st))"
  by (subst chatLoop.simps) (simp add: sent_def Let_def)

lemma chatLoop_tools:
  "step < 10 \<Longrightarrow> CreateChatCompletion E (tick (world st)) mfa = Inr (msg # others) \<Longrightarrow>
   ToolCalls msg \<noteq> [] \<Longrightarrow>
   toolCalls L E (ToolCalls msg) (mfa @ [msg]) (appendCtx msg (sent mfa st)) = (mfa3, st3) \<Longrightarrow>
   chatLoop L E step mfa st
     = (if maxCtxMessages (agent st3) < length (ctx (agent st3))
        then chatLoop L E (Suc step) (systemPrompt # ctx (agent (trimCtx st3))) (trimCtx st3)
        else chatLoop L E (Suc step) mfa3 st3)"
  by (subst chatLoop.simps) (simp add: sent_def Let_def)

lemma inv_sent:
  assumes "window_inv st" "length (ctx (agent st)) \<le> maxCtxMessages (agent st)"
  shows "window_inv (sent (systemPrompt # ctx (agent st)) st)"
  using assms
  by (simp add: window_inv_def sent_def windowed_append appended_append lastN_short)

lemma inv_appends:
  assumes "window_inv st" "agent st' = (agent st)\<lparr>ctx := ctx (agent st) @ ms\<rparr>"
    "trace st' = trace st @ map Appended ms"
  shows "window_inv st'"
proof -
  let ?n = "maxCtxMessages (agent st)"
  have "lastN ?n (ctx (agent st) @ ms) = lastN ?n (lastN ?n (ctx (agent st)) @ ms)"
    by (simp add: lastN_append)
  also have "\<dots> = lastN ?n (appended (trace st) @ ms)"
    using assms(1) by (simp add: window_inv_def lastN_append)
  finally show ?thesis
    using assms by (simp add: window_inv_def appended_append appended_Appended windowed_append
        windowed_Appended)
qed

lemma inv_appendCtx: "window_inv st \<Longrightarrow> window_inv (appendCtx m st)"
  by (rule inv_appends [where ms = "[m]"]) (simp_all add: appendCtx_def)

lemma inv_trimCtx: "window_inv st \<Longrightarrow> window_inv (trimCtx st)"
  by (simp add: window_inv_def trimCtx_def Let_def lastN_lastN [unfolded lastN_def] lastN_def)

lemma chatLoop_inv:
  assumes "window_inv st" "length (ctx (agent st)) \<le> maxCtxMessages (agent st)"
    "mfa = systemPrompt # ctx (agent st)"
    "chatLoop L E step mfa st = (r, st')"
  shows "window_inv st' \<and> maxCtxMessages (agent st') = maxCtxMessages (agent st)
         \<and> length (ctx (agent st')) \<le> Suc (maxCtxMessages (agent st))"
  using assms
proof (induction "10 - step" arbitrary: step mfa st)
  case 0
  then show ?case by (simp add: chatLoop_end)
next
  case (Suc k)
  then have step: "step < 10" "k = 10 - Suc step" by simp_all
  let ?st1 = "sent mfa st"
  have i1: "window_inv ?st1" using inv_sent Suc.prems by simp
  show ?case
  proof (cases "CreateChatCompletion E (tick (world st)) mfa")
    case (Inl err)
    with Suc.prems step i1 show ?thesis
      by (auto simp: chatLoop_error sent_def)
  next
    case (Inr choices)
    show ?thesis
    proof (cases choices)
      case Nil
      with Inr Suc.prems step i1 show ?thesis
        by (auto simp: chatLoop_empty sent_def)
    next
      case (Cons msg others)
      let ?st2 = "appendCtx msg ?st1"
      have i2: "window_inv ?st2" using i1 by (rule inv_appendCtx)
      show ?thesis
      proof (cases "ToolCalls msg = []")
        case True
        with Inr Cons Suc.prems step i2 show ?thesis
          by (auto simp: chatLoop_answer appendCtx_def sent_def)
      next
        case False
        obtain mfa3 st3 where t: "toolCalls L E (ToolCalls msg) (mfa @ [msg]) ?st2 = (mfa3, st3)"
          by (cases "toolCalls L E (ToolCalls msg) (mfa @ [msg]) ?st2")
        from toolCalls_appends [OF t] obtain ms where ms: "mfa3 = (mfa @ [msg]) @ ms"
          "agent st3 = (agent ?st2)\<lparr>ctx := ctx (agent ?st2) @ ms\<rparr>"
          "trace st3 = trace ?st2 @ map Appended ms"
          by blast
        have i3: "window_inv st3" using i2 ms(2,3) by (rule inv_appends)
        have m3: "maxCtxMessages (agent st3) = maxCtxMessages (agent st)"
          using ms(2) by (simp add: appendCtx_def sent_def)
        have c3: "mfa3 = systemPrompt # ctx (agent st3)"
          using ms(1,2) Suc.prems(3) by (simp add: appendCtx_def sent_def)
        show ?thesis
        proof (cases "maxCtxMessages (agent st3) < length (ctx (agent st3))")
          case True
          let ?st4 = "trimCtx st3"
          have r: "chatLoop L E (Suc step) (systemPrompt # ctx (agent ?st4)) ?st4 = (r, st')"
            using chatLoop_tools [OF step(1) Inr [unfolded Cons] False t] True Suc.prems(4)
            by simp
          have "window_inv ?st4" using i3 by (rule inv_trimCtx)
          moreover have "length (ctx (agent ?st4)) \<le> maxCtxMessages (agent ?st4)"
            using True by (simp add: trimCtx_def Let_def)
          moreover have "maxCtxMessages (agent ?st4) = maxCtxMessages (agent st)"
            using m3 by (simp add: trimCtx_def Let_def)
          ultimately show ?thesis
            using Suc.hyps(1) [OF step(2) _ _ refl r] by simp
        next
          case nt: False
          have r: "chatLoop L E (Suc step) mfa3 st3 = (r, st')"
            using chatLoop_tools [OF step(1) Inr [unfolded Cons] False t] nt Suc.prems(4)
            by simp
          from nt have "length (ctx (agent st3)) \<le> maxCtxMessages (agent st3)" by simp
          with Suc.hyps(1) [OF step(2) i3 _ c3 r] m3 show ?thesis by simp
        qed
      qed
    qed
  qed
qed

lemma chatLoop_requests:
  assumes "chatLoop L E step mfa st = (r, st')"
  shows "length (requests (trace st')) \<le> length (requests (trace st)) + (10 - step)"
  using assms
proof (induction "10 - step" arbitrary: step mfa st)
  case 0
  then show ?case by (simp add: chatLoop_end)
next
  case (Suc k)
  then have step: "step < 10" "k = 10 - Suc step" by simp_all
  let ?st1 = "sent mfa st"
  have r1: "length (requests (trace ?st1)) = Suc (length (requests (trace st)))"
    by (simp add: sent_def requests_append)
  show ?case
  proof (cases "CreateChatCompletion E (tick (world st)) mfa")
    case (Inl err)
    with Suc.prems step r1 show ?thesis
      by (auto simp: chatLoop_error)
  next
    case (Inr choices)
    show ?thesis
    proof (cases choices)
      case Nil
      with Inr Suc.prems step r1 show ?thesis
        by (auto simp: chatLoop_empty)
    next
      case (Cons msg others)
      let ?st2 = "appendCtx msg ?st1"
      have r2: "length (requests (trace ?st2)) = Suc (length (requests (trace st)))"
        using r1 by (simp add: appendCtx_def requests_append)
      show ?thesis
      proof (cases "ToolCalls msg = []")
        case True
        with Inr Cons Suc.prems step r2 show ?thesis
          by (auto simp: chatLoop_answer)
      next
        case False
        obtain mfa3 st3 where t: "toolCalls L E (ToolCalls msg) (mfa @ [msg]) ?st2 = (mfa3, st3)"
          by (cases "toolCalls L E (ToolCalls msg) (mfa @ [msg]) ?st2")
        from toolCalls_appends [OF t] obtain ms where
          "trace st3 = trace ?st2 @ map Appended ms"
          by blast
        then have r3: "length (requests (trace st3)) = Suc (length (requests (trace st)))"
          using r2 by (simp add: requests_append requests_Appended)
        have r4: "length (requests (trace (trimCtx st3))) = Suc (length (requests (trace st)))"
          using r3 by (simp add: trimCtx_def Let_def)
        from chatLoop_tools [OF step(1) Inr [unfolded Cons] False t] Suc.prems
        consider "chatLoop L E (Suc step) (systemPrompt # ctx (agent (trimCtx st3))) (trimCtx st3)
                    = (r, st')"
          | "chatLoop L E (Suc step) mfa3 st3 = (r, st')"
          by (auto split: if_splits)
        then show ?thesis
        proof cases
          case 1
          from Suc.hyps(1) [OF step(2) 1] r4 step show ?thesis by simp
        next
          case 2
          from Suc.hyps(1) [OF step(2) 2] r3 step show ?thesis by simp
        qed
      qed
    qed
  qed
qed



lemma chatLoop_appended:
  assumes "chatLoop L E step mfa st = (r, st')"
  shows "\<exists>ms. appended (trace st') = appended (trace st) @ ms
             \<and> (\<forall>m \<in> set ms. Role m = ''tool'' \<or> fromService E m)"
  using assms
proof (induction "10 - step" arbitrary: step mfa st)
  case 0
  then show ?case by (simp add: chatLoop_end)
next
  case (Suc k)
  then have step: "step < 10" "k = 10 - Suc step" by simp_all
  let ?st1 = "sent mfa st"
  have a1: "appended (trace ?st1) = appended (trace st)"
    by (simp add: sent_def appended_append)
  show ?case
  proof (cases "CreateChatCompletion E (tick (world st)) mfa")
    case (Inl err)
    with Suc.prems step a1 show ?thesis
      by (auto simp: chatLoop_error)
  next
    case (Inr choices)
    show ?thesis
    proof (cases choices)
      case Nil
      with Inr Suc.prems step a1 show ?thesis
        by (auto simp: chatLoop_empty)
    next
      case (Cons msg others)
      let ?st2 = "appendCtx msg ?st1"
      have fs: "fromService E msg"
        using Inr Cons by (auto simp: fromService_def)
      have a2: "appended (trace ?st2) = appended (trace st) @ [msg]"
        using a1 by (simp add: appendCtx_def appended_append)
      show ?thesis
      proof (cases "ToolCalls msg = []")
        case True
        with Inr Cons Suc.prems step a2 fs show ?thesis
          by (auto simp: chatLoop_answer)
      next
        case False
        obtain mfa3 st3 where t: "toolCalls L E (ToolCalls msg) (mfa @ [msg]) ?st2 = (mfa3, st3)"
          by (cases "toolCalls L E (ToolCalls msg) (mfa @ [msg]) ?st2")
        from toolCalls_appends [OF t] obtain ms where ms:
          "\<forall>m \<in> set ms. Role m = ''tool''"
          "trace st3 = trace ?st2 @ map Appended ms"
          by blast
        then have a3: "appended (trace st3) = appended (trace st) @ msg # ms"
          using a2 by (simp add: appended_append appended_Appended)
        have a4: "appended (trace (trimCtx st3)) = appended (trace st) @ msg # ms"
          using a3 by (simp add: trimCtx_def Let_def)
        from chatLoop_tools [OF step(1) Inr [unfolded Cons] False t] Suc.prems
        consider "chatLoop L E (Suc step) (systemPrompt # ctx (agent (trimCtx st3))) (trimCtx st3)
                    = (r, st')"
          | "chatLoop L E (Suc step) mfa3 st3 = (r, st')"
          by (auto split: if_splits)
        then obtain ms' where "appended (trace st') = (appended (trace st) @ msg # ms) @ ms'"
          "\<forall>m \<in> set ms'. Role m = ''tool'' \<or> fromService E m"
        proof cases
          case 1
          from Suc.hyps(1) [OF step(2) 1] a4 that show ?thesis by auto
        next
          case 2
          from Suc.hyps(1) [OF step(2) 2] a3 that show ?thesis by auto
        qed
        with ms(1) fs show ?thesis
          by (intro exI [of _ "msg # ms @ ms'"]) auto
      qed
    qed
  qed
qed

lemma chat_unfold:
  "chat L E userPrompt st =
     (let st1 = appendCtx (userMessage userPrompt) st;
          st2 = (if maxCtxMessages (agent st1) < length (ctx (agent st1)) then trimCtx st1 else st1)
      in chatLoop L E 0 (systemPrompt # ctx (agent st2)) st2)"
  by (simp add: chat_def userMessage_def Let_def)

lemma window_inv_world: "window_inv (st\<lparr>world := w\<rparr>) = window_inv st"
  by (simp add: window_inv_def)

lemma chat_keeps_window:
  assumes "window_inv st" and "chat L E userPrompt st = (r, st')"
  shows "window_inv st'"
proof -
  let ?st1 = "appendCtx (userMessage userPrompt) st"
  define st2 where
    "st2 = (if maxCtxMessages (agent ?st1) < length (ctx (agent ?st1)) then trimCtx ?st1 else ?st1)"
  have c: "chatLoop L E 0 (systemPrompt # ctx (agent st2)) st2 = (r, st')"
    using assms(2) by (simp add: chat_unfold st2_def Let_def)
  have i: "window_inv st2"
    using assms(1) by (simp add: st2_def inv_appendCtx inv_trimCtx)
  have l: "length (ctx (agent st2)) \<le> maxCtxMessages (agent st2)"
    by (simp add: st2_def trimCtx_def Let_def)
  from chatLoop_inv [OF i l refl c] show ?thesis by simp
qed

lemma chat_requests:
  assumes "chat L E userPrompt st = (r, st')"
  shows "length (requests (trace st')) \<le> length (requests (trace st)) + 10"
proof -
  define st2 where "st2 = (let st1 = appendCtx (userMessage userPrompt) st
      in if maxCtxMessages (agent st1) < length (ctx (agent st1)) then trimCtx st1 else st1)"
  have c: "chatLoop L E 0 (systemPrompt # ctx (agent st2)) st2 = (r, st')"
    using assms by (simp add: chat_unfold st2_def Let_def)
  have t: "requests (trace st2) = requests (trace st)"
    by (simp add: st2_def Let_def appendCtx_def trimCtx_def requests_append)
  from chatLoop_requests [OF c] t show ?thesis by simp
qed



text \<open>
  \<^bold>\<open>C4\<close> (as amended).  The conversation is cut to its last \<open>N\<close> messages after the prompt
  is appended and at the end of each hop with tool calls, before the next request; the
  response of the model is appended after that.  So: every request is the system prompt
  followed by the last \<open>N\<close> messages appended so far, in their order (all of them while
  there are no more than \<open>N\<close>); the conversation that \<open>chat\<close> leaves holds at most \<open>N + 1\<close>
  messages, the last ones appended; and what \<open>chat\<close> appends is the prompt, as a message
  of the user, then responses of the model service and messages of the role \<open>tool\<close>, so the
  system prompt is in a request only as its first message, unless the service sends it.
  The property \<open>window_inv\<close> holds at the start of a run and is kept by every call of \<open>chat\<close>.
\<close>

theorem chat_window:
  assumes "window_inv st" and "chat L E userPrompt st = (r, st')"
  shows "window_inv st'
       \<and> maxCtxMessages (agent st') = maxCtxMessages (agent st)
       \<and> length (ctx (agent st')) \<le> Suc (maxCtxMessages (agent st))
       \<and> (\<exists>ms. appended (trace st') = appended (trace st) @ userMessage userPrompt # ms
               \<and> (\<forall>m \<in> set ms. Role m = ''tool'' \<or> fromService E m))"
proof -
  let ?st1 = "appendCtx (userMessage userPrompt) st"
  define st2 where
    "st2 = (if maxCtxMessages (agent ?st1) < length (ctx (agent ?st1)) then trimCtx ?st1 else ?st1)"
  have c: "chatLoop L E 0 (systemPrompt # ctx (agent st2)) st2 = (r, st')"
    using assms(2) by (simp add: chat_unfold st2_def Let_def)
  have i: "window_inv st2"
    using assms(1) by (simp add: st2_def inv_appendCtx inv_trimCtx)
  have l: "length (ctx (agent st2)) \<le> maxCtxMessages (agent st2)"
    by (simp add: st2_def trimCtx_def Let_def)
  have m: "maxCtxMessages (agent st2) = maxCtxMessages (agent st)"
    by (simp add: st2_def trimCtx_def appendCtx_def Let_def)
  have a: "appended (trace st2) = appended (trace st) @ [userMessage userPrompt]"
    by (simp add: st2_def trimCtx_def appendCtx_def Let_def appended_append)
  from chatLoop_inv [OF i l refl c] chatLoop_appended [OF c] m a show ?thesis
    by auto
qed

lemma window_inv_state0: "window_inv state0"
  by (simp add: window_inv_def state0_def agent0_def)

theorem chat_window_witness:
  "window_inv state0
   \<and> window_inv (snd (chat lib0 envBusy ''go'' state0))
   \<and> length (ctx (agent (snd (chat lib0 envBusy ''go'' state0)))) \<le> 41"
  using chat_window [OF window_inv_state0, of lib0 envBusy "''go''"
      "fst (chat lib0 envBusy ''go'' state0)" "snd (chat lib0 envBusy ''go'' state0)"]
  by (simp add: window_inv_state0) (simp add: state0_def agent0_def)

lemma toolCalls_unsupported:
  "\<forall>tc \<in> set tcs. tc_Type tc \<noteq> ''function'' \<Longrightarrow>
   toolCalls L E tcs mfa st
     = (mfa @ map unsupported tcs,
        st\<lparr>agent := (agent st)\<lparr>ctx := ctx (agent st) @ map unsupported tcs\<rparr>,
           trace := trace st @ map Appended (map unsupported tcs)\<rparr>)"
proof (induction tcs arbitrary: mfa st)
  case Nil
  show ?case by simp
next
  case (Cons tc tcs)
  then have "toolResponse L E tc st = (unsupported tc, st)"
    by (simp add: toolResponse_def unsupported_def)
  with Cons show ?case
    by (simp add: appendCtx_def)
qed

lemma appended_replicate: "appended (replicate n (Appended m)) = replicate n m"
  by (induction n) auto

text \<open>
  The conversation can hold more than \<open>N\<close> messages.  From a fresh agent: the first response
  asks for 39 tool calls, which makes 41 messages, cut to 40 at the end of the hop; the
  second response is the answer, appended as the 41st message, and \<open>chat\<close> returns.
\<close>

theorem chat_leaves_41_messages:
  "fst (chat lib0 envBusy ''go'' state0) = Inr ''done''
   \<and> length (appended (trace (snd (chat lib0 envBusy ''go'' state0)))) = 42
   \<and> maxCtxMessages (agent (snd (chat lib0 envBusy ''go'' state0))) = 40
   \<and> length (ctx (agent (snd (chat lib0 envBusy ''go'' state0)))) = 41"
proof -
  let ?u = "userMessage ''go''"
  let ?m = "assistant [] (replicate 39 otherCall)"
  let ?ms = "map unsupported (replicate 39 otherCall)"
  let ?st1 = "appendCtx ?u state0"
  let ?st2 = "appendCtx ?m (sent [systemPrompt, ?u] ?st1)"
  let ?st3 = "?st2\<lparr>agent := (agent ?st2)\<lparr>ctx := ctx (agent ?st2) @ ?ms\<rparr>,
                   trace := trace ?st2 @ map Appended ?ms\<rparr>"
  let ?st4 = "trimCtx ?st3"
  let ?mfa4 = "systemPrompt # ctx (agent ?st4)"
  have c0: "chat lib0 envBusy ''go'' state0 = chatLoop lib0 envBusy 0 [systemPrompt, ?u] ?st1"
    by (simp add: chat_unfold Let_def appendCtx_def state0_def agent0_def)
  have t1: "tick (world ?st1) = 0"
    by (simp add: appendCtx_def state0_def)
  have r1: "CreateChatCompletion envBusy (tick (world ?st1)) [systemPrompt, ?u] = Inr [?m]"
    unfolding t1 by (simp add: envBusy_def)
  have tc: "ToolCalls ?m \<noteq> []"
    by (simp add: assistant_def)
  have t: "toolCalls lib0 envBusy (ToolCalls ?m) ([systemPrompt, ?u] @ [?m]) ?st2
           = (([systemPrompt, ?u] @ [?m]) @ ?ms, ?st3)"
    using toolCalls_unsupported [of "replicate 39 otherCall" lib0 envBusy
        "[systemPrompt, ?u] @ [?m]" ?st2]
    by (simp add: assistant_def otherCall_def)
  have l3: "length (ctx (agent ?st3)) = 41" "maxCtxMessages (agent ?st3) = 40"
    by (simp_all add: appendCtx_def sent_def state0_def agent0_def)
  have c1: "chatLoop lib0 envBusy 0 [systemPrompt, ?u] ?st1 = chatLoop lib0 envBusy (Suc 0) ?mfa4 ?st4"
    using chatLoop_tools [OF _ r1 tc t] l3 by simp
  have t4: "tick (world ?st4) = 1"
    by (simp add: trimCtx_def Let_def appendCtx_def sent_def state0_def)
  have r4: "CreateChatCompletion envBusy (tick (world ?st4)) ?mfa4 = Inr [assistant ''done'' []]"
    unfolding t4 by (simp add: envBusy_def)
  have c2: "chatLoop lib0 envBusy (Suc 0) ?mfa4 ?st4
            = (Inr ''done'', appendCtx (assistant ''done'' []) (sent ?mfa4 ?st4))"
    using chatLoop_answer [OF _ r4] by (simp add: assistant_def)
  have l4: "length (ctx (agent ?st4)) = 40"
    using l3 by (simp add: trimCtx_def Let_def)
  have a4: "length (appended (trace ?st4)) = 41"
    by (simp add: trimCtx_def Let_def appendCtx_def sent_def state0_def appended_append
        appended_Appended appended_replicate)
  from c0 c1 c2 l4 a4 l3(2) show ?thesis
    by (simp add: appendCtx_def sent_def appended_append trimCtx_def Let_def
        appended_replicate)
qed

subsection \<open>The shell\<close>

lemma TrimSpace_Nil: "TrimSpace [] = []"
  by (simp add: TrimSpace_def whiteSpace_def trimLeft.simps)

lemma Fields_ls: "Fields ''ls'' = [''ls'']"
  by (simp add: Fields_def fieldsFrom.simps spaceWidth_def whiteSpace_def)

lemma ToLower_lib0: "ToLower lib0 s = map asciiLower s"
  by (simp add: lib0_def)

lemma TrimSpace_1_failed: "TrimSpace ''1 failed'' = ''1 failed''"
  by (simp add: TrimSpace_def whiteSpace_def trimLeft.simps)

lemma shellText_envFail:
  "shellText (''1 failed'', Some (ExitError ''exit status 1''))
     = ''Output:'' @ [CHR 0x0A] @ ''1 failed'' @ [CHR 0x0A] @ ''ERROR: exit status 1''"
  by (simp add: shellText_def TrimSpace_1_failed)


text \<open>
  \<^bold>\<open>C7\<close> (as amended).  \<open>runShell\<close> of the tool-calling agent never returns an error.  When the
  command fails, be it that it exits with a status that is not zero or that the process
  cannot be started, the result is the text \<open>Output:\<close>, the output of both streams without
  the white space around it, and \<open>ERROR:\<close> with the error; otherwise it is that output.
  \<open>runShell\<close> of \<open>zug.go\<close> returns the output and the error as they are, for a command with
  at least one field.
\<close>

theorem runShell_folds_errors:
  "runShell E a cmd w
     = (Inr (shellText (fst (CombinedOutput E (tick w) [''bash'', ''-c'', cmd]
                               (projectDir a) (files w)))),
        w\<lparr>files := snd (CombinedOutput E (tick w) [''bash'', ''-c'', cmd]
                            (projectDir a) (files w)),
          tick := Suc (tick w)\<rparr>)
   \<and> (Fields cmd \<noteq> [] \<longrightarrow>
        runShell_zug E z cmd w
          = (Returns (fst (CombinedOutput E (tick w) (Fields cmd) (projectDir_zug z) (files w))),
             w\<lparr>files := snd (CombinedOutput E (tick w) (Fields cmd)
                                 (projectDir_zug z) (files w)),
               tick := Suc (tick w)\<rparr>))"
  by (auto simp: runShell_def runShell_zug_def shellText_def Let_def
      split: prod.splits option.splits)

theorem runShell_folds_errors_witness:
  "runShell envFail agent0 ''ls'' \<lparr>files = files0, tick = 0\<rparr>
     = (Inr (''Output:'' @ [CHR 0x0A] @ ''1 failed'' @ [CHR 0x0A] @ ''ERROR: exit status 1''),
        \<lparr>files = files0, tick = 1\<rparr>)
   \<and> runShell_zug envNoShell agentZug ''ls'' worldZug
     = (Returns ([], Some (StartError ''exec: no such file'')), worldZug\<lparr>tick := 1\<rparr>)"
  using runShell_folds_errors [of envFail agent0 "''ls''" "\<lparr>files = files0, tick = 0\<rparr>"]
    runShell_folds_errors [where E = envNoShell and z = agentZug and cmd = "''ls''"
      and w = worldZug]
  by (simp add: envNoShell_def envFail_def shellText_envFail Fields_ls worldZug_def)

text \<open>
  A process that cannot be started is no error of \<open>runShell\<close> either: the result is a text
  like that of a failed command.  And \<open>runShell\<close> of \<open>zug.go\<close> returns the error of a command
  that exits with status 1.
\<close>

theorem runShell_spawn_failure:
  "runShell envNoShell agent0 ''ls'' \<lparr>files = files0, tick = 0\<rparr>
     = (Inr (''Output:'' @ [CHR 0x0A] @ [CHR 0x0A] @ ''ERROR: exec: no such file''),
        \<lparr>files = files0, tick = 1\<rparr>)
   \<and> runShell_zug envFail agentZug ''ls'' worldZug
     = (Returns (''1 failed'', Some (ExitError ''exit status 1'')), worldZug\<lparr>tick := 1\<rparr>)"
  by (simp add: runShell_def runShell_zug_def envNoShell_def envFail_def TrimSpace_Nil
      Fields_ls worldZug_def Let_def)

subsection \<open>The classification of the test output\<close>

text \<open>
  \<^bold>\<open>C8\<close> (as amended).  The tool-calling agent takes the tests as passed exactly when the
  output contains neither \<open>fail\<close> nor \<open>error\<close> and contains \<open>pass\<close> or \<open>no tests ran\<close>, the case
  of letters ignored.  \<open>zug.go\<close> takes them as passed exactly when the output does not
  contain \<open>failed\<close>, and the third file exactly when it contains neither \<open>failed\<close> nor
  \<open>error\<close>: these two ask for no sign of success.
\<close>

theorem classification:
  "(testsPassed L testOutput
      = (\<not> marker L ''fail'' testOutput \<and> \<not> marker L ''error'' testOutput
         \<and> (marker L ''pass'' testOutput \<or> marker L ''no tests ran'' testOutput)))
   \<and> (testsPassed_zug L testOutput = (\<not> marker L ''failed'' testOutput))
   \<and> (testsPassed_v2 L testOutput
      = (\<not> marker L ''failed'' testOutput \<and> \<not> marker L ''error'' testOutput))"
  by (simp add: testsPassed_def testsPassed_zug_def testsPassed_v2_def marker_def Contains_def
      sublist_def)

text \<open>
  The empty output has no sign of failure and none of success: the tool-calling agent does
  not take it as passed, the two other variants do, and the loop of \<open>zug.go\<close> ends with
  \<open>All tests passed\<close>.
\<close>

lemma Fields_pytest:
  "Fields ''pytest --maxfail=1 --disable-warnings -q''
     = [''pytest'', ''--maxfail=1'', ''--disable-warnings'', ''-q'']"
  by (simp add: Fields_def fieldsFrom.simps spaceWidth_def whiteSpace_def)


lemma Join_project_tests: "Join ''project'' ''tests'' = ''project/tests''"
  by (simp add: Join_def Clean_def)


theorem empty_output_ends_zug:
  "testsPassed_zug lib0 [] \<and> testsPassed_v2 lib0 [] \<and> \<not> testsPassed lib0 []
   \<and> \<not> Contains (ToLower lib0 []) ''pass'' \<and> \<not> Contains (ToLower lib0 []) ''no tests ran''
   \<and> fst (feedbackLoop_zug (Suc 0) lib0 envBusy ''task'' (agentZug, worldZug))
       = (Some AllTestsPassed, 1)"
proof -
  let ?a1 = "agentZug\<lparr>context_zug := context_zug agentZug @ [assistant [] (replicate 39 otherCall)]\<rparr>"
  let ?w1 = "worldZug\<lparr>tick := Suc (tick worldZug)\<rparr>"
  have ask: "askModel_zug lib0 envBusy ''task'' (agentZug, worldZug) = (Returns (Inr []), ?a1, ?w1)"
    by (simp add: askModel_zug_def envBusy_def assistant_def Let_def worldZug_def)
  have sh: "runShell_zug envBusy ?a1 ''pytest --maxfail=1 --disable-warnings -q'' ?w1
            = (Returns ([], None), ?w1\<lparr>files := files ?w1, tick := Suc (tick ?w1)\<rparr>)"
    by (simp add: runShell_zug_def Fields_pytest envBusy_def Let_def)
  have p: "testsPassed_zug lib0 []"
    by (simp add: testsPassed_zug_def ToLower_lib0 Contains_def)
  have d: "isDir (files ?w1) (Join (projectDir_zug ?a1) ''tests'')"
    by (simp add: agentZug_def worldZug_def Join_project_tests isDir_def Stat_def)
  have "fst (feedbackLoop_zug (Suc 0) lib0 envBusy ''task'' (agentZug, worldZug))
       = (Some AllTestsPassed, 1)"
    using ask sh p d by (simp add: Let_def)
  with p show ?thesis
    by (simp add: testsPassed_def testsPassed_v2_def ToLower_lib0 Contains_def)
qed

text \<open>The outputs of the scenarios: a failure, a success, no tests, an error.\<close>

lemma scenario_outputs:
  "\<not> testsPassed lib0 ''1 failed, 2 passed in 0.12s''" "testsPassed lib0 ''3 passed in 0.10s''"
  "testsPassed lib0 ''no tests ran in 0.01s''" "\<not> testsPassed lib0 ''ERROR collecting tests''"
  by (simp_all add: testsPassed_def ToLower_lib0 asciiLower_def Contains_def sublist_code)

subsection \<open>The feedback loop\<close>

lemma feedbackTurns_end: "\<not> turn < 10 \<Longrightarrow> feedbackTurns L E turn instr st = ((Exhausted, turn), st)"
  by (subst feedbackTurns.simps) simp

lemma feedbackTurns_abort:
  "turn < 10 \<Longrightarrow> chat L E instr st = (Inl err, st1) \<Longrightarrow>
   feedbackTurns L E turn instr st = ((Aborted err, turn + 1), st1)"
  by (subst feedbackTurns.simps) simp

lemma feedbackTurns_no_tests:
  "turn < 10 \<Longrightarrow> chat L E instr st = (Inr reply, st1) \<Longrightarrow>
   \<not> isDir (files (world st1)) (Join (projectDir (agent st1)) ''tests'') \<Longrightarrow>
   feedbackTurns L E turn instr st = ((NoTests, turn + 1), st1)"
  by (subst feedbackTurns.simps) simp

lemma feedbackTurns_verify:
  "turn < 10 \<Longrightarrow> chat L E instr st = (Inr reply, st1) \<Longrightarrow>
   isDir (files (world st1)) (Join (projectDir (agent st1)) ''tests'') \<Longrightarrow>
   runShell E (agent st1) ''pytest -q --maxfail=1 --disable-warnings tests/'' (world st1)
     = (Inr testOutput, w') \<Longrightarrow>
   feedbackTurns L E turn instr st
     = (if testsPassed L testOutput then ((TestsPassed, turn + 1), st1\<lparr>world := w'\<rparr>)
        else feedbackTurns L E (turn + 1)
               (''The previous operations led to test failures. Please analyze the following test output and fix the code. Test output:''
                @ [CHR 0x0A] @ testOutput) (st1\<lparr>world := w'\<rparr>))"
  by (subst feedbackTurns.simps) (simp add: Let_def)

lemma runShell_returns:
  "\<exists>testOutput w'. runShell E a cmd w = (Inr testOutput, w')"
  by (auto simp: runShell_def Let_def split: prod.splits option.splits)




lemma feedbackTurns_run:
  assumes "feedbackTurns L E turn instr st = (res, st')" "turn \<le> 10"
  shows "(window_inv st \<longrightarrow> window_inv st')
       \<and> length (requests (trace st')) \<le> length (requests (trace st)) + 10 * (10 - turn)"
  using assms
proof (induction "10 - turn" arbitrary: turn instr st)
  case 0
  then show ?case by (simp add: feedbackTurns_end)
next
  case (Suc k)
  then have turn: "turn < 10" "k = 10 - (turn + 1)" "turn + 1 \<le> 10" by simp_all
  obtain r st1 where c: "chat L E instr st = (r, st1)"
    by (cases "chat L E instr st")
  have w1: "window_inv st \<longrightarrow> window_inv st1"
    using chat_keeps_window [OF _ c] by blast
  have r1: "length (requests (trace st1)) \<le> length (requests (trace st)) + 10"
    using chat_requests [OF c] .
  have more: "10 + 10 * (10 - (turn + 1)) = 10 * (10 - turn)"
    using turn by simp
  show ?case
  proof (cases r)
    case (Inl err)
    with c Suc.prems turn w1 r1 show ?thesis by (auto simp: feedbackTurns_abort)
  next
    case (Inr reply)
    show ?thesis
    proof (cases "isDir (files (world st1)) (Join (projectDir (agent st1)) ''tests'')")
      case False
      with c Inr Suc.prems turn w1 r1 show ?thesis by (auto simp: feedbackTurns_no_tests)
    next
      case True
      obtain testOutput w' where
        s: "runShell E (agent st1) ''pytest -q --maxfail=1 --disable-warnings tests/'' (world st1)
              = (Inr testOutput, w')"
        using runShell_returns by blast
      show ?thesis
      proof (cases "testsPassed L testOutput")
        case True
        with feedbackTurns_verify [OF turn(1) c [unfolded Inr] \<open>isDir _ _\<close> s] Suc.prems turn w1 r1
        show ?thesis by (auto simp: window_inv_world)
      next
        case False
        with feedbackTurns_verify [OF turn(1) c [unfolded Inr] \<open>isDir _ _\<close> s] Suc.prems
        have "feedbackTurns L E (turn + 1)
               (''The previous operations led to test failures. Please analyze the following test output and fix the code. Test output:''
                @ [CHR 0x0A] @ testOutput) (st1\<lparr>world := w'\<rparr>) = (res, st')"
          by simp
        from Suc.hyps(1) [OF turn(2) this turn(3)] w1 r1 more show ?thesis
          by (auto simp: window_inv_world)
      qed
    qed
  qed
qed

lemma feedbackLoop_keeps_window:
  "window_inv st \<Longrightarrow> window_inv (snd (feedbackLoop L E initialTask st))"
  using feedbackTurns_run [of L E 0 initialTask st "fst (feedbackLoop L E initialTask st)"
      "snd (feedbackLoop L E initialTask st)"]
  by (simp add: feedbackLoop_def)





end
